theory Spec2Isabelle
  imports Complex_Main
begin

section \<open>Values, errors and console output\<close>

text \<open>
  A Python/NumPy float is modelled as a real number or the not-a-number value.
  Rounding and the two infinities are outside the model: every latitude, longitude,
  salinity, temperature and reflectance value read from the data files is either a
  number or missing, and \<open>NaN\<close> is the missing sentinel (\<open>np.nan\<close>).
\<close>

datatype pyfloat = NaN | Fin real

fun isnan :: "pyfloat \<Rightarrow> bool" where
  "isnan NaN = True"
| "isnan (Fin x) = False"

text \<open>Comparisons with a NaN operand are false, as in IEEE arithmetic.\<close>

fun flt :: "pyfloat \<Rightarrow> pyfloat \<Rightarrow> bool" where
  "flt (Fin a) (Fin b) = (a < b)"
| "flt _ _ = False"

definition fgt :: "pyfloat \<Rightarrow> pyfloat \<Rightarrow> bool" where
  "fgt a b = flt b a"

text \<open>
  The exceptions of the Python code that the functions below can raise. \<open>Unsupported\<close> is
  not a Python exception: it marks the one kind of input whose array ranks the model
  does not follow, a temperature variable with other than one time step.
\<close>

datatype error = IndexError | ValueError | KeyError | EOFError | Unsupported

text \<open>Sequencing of fallible steps: the first exception ends the computation.\<close>

definition and_then :: "error + 'a \<Rightarrow> ('a \<Rightarrow> error + 'b) \<Rightarrow> error + 'b" where
  "and_then m f = (case m of Inl e \<Rightarrow> Inl e | Inr x \<Rightarrow> f x)"

text \<open>\<open>xs[i]\<close> for a non-negative index: out of range raises \<open>IndexError\<close>.\<close>

definition index :: "'a list \<Rightarrow> nat \<Rightarrow> error + 'a" where
  "index xs i = (if i < length xs then Inr (xs ! i) else Inl IndexError)"

text \<open>
  What the program writes to the console, one constructor per message of the source:
  the notices of \<open>load_data\<close>, the prompt and the two rejections of
  \<open>_get_user_boundary\<close>, the two lines printed when the box could not be
  created, the progress report \<open>Progress: k/total\<close> of the driver loop, and the two
  lines that announce the coverage of the swath before the prompts.
\<close>

datatype message =
    No_L2_AOP_data_found
  | No_salinity_data_found
  | No_temperature_data_found
  | Prompt string pyfloat pyfloat
  | Value_must_be_between pyfloat pyfloat
  | Must_enter_a_float
  | Could_not_create_boundary_box
  | Try_increasing_the_size
  | Progress nat nat
  | Coverage pyfloat pyfloat pyfloat pyfloat
  | Select_a_boundary_box

section \<open>Data acquisition: \<open>load_data\<close>\<close>

text \<open>
  \<open>earthaccess.search_data\<close> and \<open>earthaccess.download\<close> are calls to a remote
  service. The three search results are inputs of the model (each a list of granule
  handles, at most one long because of \<open>count=1\<close>), and \<open>download\<close> is a parameter
  that turns a result list and a folder name into local paths.
  The function returns what was printed together with the three paths or the exception.
\<close>

definition load_data ::
  "('g list \<Rightarrow> string \<Rightarrow> string list) \<Rightarrow> 'g list \<Rightarrow> 'g list \<Rightarrow> 'g list
    \<Rightarrow> message list \<times> (error + string \<times> string \<times> string)" where
  "load_data download L2_results sal_results temp_results =
    (let (L2_paths, out1) =
           (if length L2_results > 0 then (download L2_results ''L2_data'', [])
            else ([], [No_L2_AOP_data_found]));
         (sal_paths, out2) =
           (if length sal_results > 0 then (download sal_results ''sal_data'', out1)
            else ([], out1 @ [No_salinity_data_found]));
         (temp_paths, out3) =
           (if length temp_results > 0 then (download temp_results ''temp_data'', out2)
            else ([], out2 @ [No_temperature_data_found]))
     in (out3,
         and_then (index L2_paths 0) (\<lambda>L2_path.
         and_then (index sal_paths 0) (\<lambda>sal_path.
         and_then (index temp_paths 0) (\<lambda>temp_path.
           Inr (L2_path, sal_path, temp_path))))))"

section \<open>The opened data files and the external functions\<close>

text \<open>
  An array of spectra on the swath grid with its per-pixel coordinates: the
  \<open>DataArray\<close> \<open>dataset_r["Rrs"]\<close> (or \<open>dataset_ru["Rrs_unc"]\<close>) after the
  navigation coordinates were merged in. \<open>vals\<close> has the dimensions
  (\<open>number_of_lines\<close>, \<open>pixels_per_line\<close>, \<open>wavelength_3d\<close>); the two coordinate
  arrays have the first two.
\<close>

record dataarray =
  vals :: "pyfloat list list list"
  latitude :: "pyfloat list list"
  longitude :: "pyfloat list list"

text \<open>The three groups read from the L2 file.\<close>

record l2_file =
  wavelength_3d :: "pyfloat list"
  Rrs :: "pyfloat list list list"
  Rrs_unc :: "pyfloat list list list"
  nav_latitude :: "pyfloat list list"
  nav_longitude :: "pyfloat list list"

text \<open>
  Functions the source calls whose code is not part of the module:
  \<^item> \<open>str_strip\<close> and \<open>float_of\<close>: the builtins \<open>str.strip\<close> and \<open>float\<close>;
    \<open>float_of s = None\<close> when \<open>float(s)\<close> raises \<open>ValueError\<close>;
  \<^item> \<open>where_drop\<close>: xarray's \<open>DataArray.where(cond, drop=True)\<close>, which may raise;
  \<^item> \<open>rrs_inversion_pigments\<close>: the inversion algorithm of the sibling module; it
    returns a sequence of result groups, or raises.
\<close>

record externals =
  str_strip :: "string \<Rightarrow> string"
  float_of :: "string \<Rightarrow> pyfloat option"
  where_drop :: "dataarray \<Rightarrow> bool list list \<Rightarrow> error + dataarray"
  rrs_inversion_pigments ::
    "pyfloat list \<Rightarrow> pyfloat list \<Rightarrow> pyfloat list \<Rightarrow> pyfloat \<Rightarrow> pyfloat
      \<Rightarrow> error + pyfloat list list"

section \<open>Region selection\<close>

text \<open>A bounding box: the four bounds entered by the operator.\<close>

record box =
  north :: pyfloat
  south :: pyfloat
  east :: pyfloat
  west :: pyfloat

text \<open>
  \<open>_get_user_boundary\<close>. The operator's input is the list of lines still to be read
  from standard input; \<open>input\<close> on an exhausted list raises \<open>EOFError\<close>. Each round
  prints the prompt and reads one line. The function returns the accepted bound, the
  lines left and the console output so far.
\<close>

fun get_user_boundary ::
  "externals \<Rightarrow> pyfloat \<Rightarrow> pyfloat \<Rightarrow> string \<Rightarrow> string list \<Rightarrow> message list
    \<Rightarrow> error + (pyfloat \<times> string list \<times> message list)" where
  "get_user_boundary X lower_bound upper_bound card_dir [] out = Inl EOFError"
| "get_user_boundary X lower_bound upper_bound card_dir (usr_inp # rest) out =
    (let out1 = out @ [Prompt card_dir upper_bound lower_bound] in
     case float_of X (str_strip X usr_inp) of
       None \<Rightarrow>
         get_user_boundary X lower_bound upper_bound card_dir rest
           (out1 @ [Must_enter_a_float])
     | Some v \<Rightarrow>
         if flt v upper_bound \<and> fgt v lower_bound then Inr (v, rest, out1)
         else get_user_boundary X lower_bound upper_bound card_dir rest
                (out1 @ [Value_must_be_between upper_bound lower_bound]))"

text \<open>
  The condition of the \<open>where\<close> calls, evaluated per pixel on the navigation arrays:
  \<open>(latitude > s) & (latitude < n) & (longitude < e) & (longitude > w)\<close>.
\<close>

definition box_mask :: "pyfloat list list \<Rightarrow> pyfloat list list \<Rightarrow> box \<Rightarrow> bool list list" where
  "box_mask lat lon b =
     map2 (map2 (\<lambda>la lo. fgt la (south b) \<and> flt la (north b) \<and> flt lo (east b) \<and> fgt lo (west b)))
       lat lon"

definition dataset_r :: "l2_file \<Rightarrow> dataarray" where
  "dataset_r f = \<lparr>vals = Rrs f, latitude = nav_latitude f, longitude = nav_longitude f\<rparr>"

definition dataset_ru :: "l2_file \<Rightarrow> dataarray" where
  "dataset_ru f = \<lparr>vals = Rrs_unc f, latitude = nav_latitude f, longitude = nav_longitude f\<rparr>"

lemma get_user_boundary_shorter:
  "get_user_boundary X lo hi d inp out = Inr (v, inp', out') \<Longrightarrow> length inp' < length inp"
proof (induction inp arbitrary: out)
  case Nil
  then show ?case by simp
next
  case (Cons l ls)
  then show ?case
    by (fastforce simp: Let_def split: option.splits if_splits)
qed

text \<open>
  The selection loop of \<open>estimate_inv_pigments\<close> (\<open>while True: try: ... break
  except ValueError: ...\<close>). \<open>cov\<close> holds the coverage bounds \<open>n_bound\<close>, \<open>s_bound\<close>,
  \<open>e_bound\<close>, \<open>w_bound\<close> of the swath. The four prompts raise nothing but \<open>EOFError\<close>,
  which the handler does not catch; a \<open>ValueError\<close> of the \<open>where\<close> call prints the two
  lines and starts the loop body again, any other exception of it propagates.
\<close>

function select_box ::
  "externals \<Rightarrow> l2_file \<Rightarrow> box \<Rightarrow> string list \<Rightarrow> message list
    \<Rightarrow> error + (box \<times> dataarray \<times> string list \<times> message list)" where
  "select_box X f cov inp out =
    (case get_user_boundary X (south cov) (north cov) ''north'' inp out of
       Inl err \<Rightarrow> Inl err
     | Inr (n, inp1, out1) \<Rightarrow>
    (case get_user_boundary X (south cov) n ''south'' inp1 out1 of
       Inl err \<Rightarrow> Inl err
     | Inr (s, inp2, out2) \<Rightarrow>
    (case get_user_boundary X (west cov) (east cov) ''east'' inp2 out2 of
       Inl err \<Rightarrow> Inl err
     | Inr (e, inp3, out3) \<Rightarrow>
    (case get_user_boundary X (west cov) e ''west'' inp3 out3 of
       Inl err \<Rightarrow> Inl err
     | Inr (w, inp4, out4) \<Rightarrow>
    (let b = \<lparr>north = n, south = s, east = e, west = w\<rparr> in
     case where_drop X (dataset_r f) (box_mask (nav_latitude f) (nav_longitude f) b) of
       Inr rrs_box \<Rightarrow> Inr (b, rrs_box, inp4, out4)
     | Inl err \<Rightarrow>
         if err = ValueError
         then select_box X f cov inp4
                (out4 @ [Could_not_create_boundary_box, Try_increasing_the_size])
         else Inl err)))))"
  by pat_completeness auto
termination
proof (relation "measure (\<lambda>(X, f, cov, inp, out). length inp)")
qed (auto dest!: get_user_boundary_shorter)

declare select_box.simps [simp del]

text \<open>
  The region stage as a whole: the selection loop, then the restriction of the
  uncertainty array to the accepted box, which the source performs after the loop.
\<close>

definition select_region ::
  "externals \<Rightarrow> l2_file \<Rightarrow> box \<Rightarrow> string list \<Rightarrow> message list
    \<Rightarrow> error + (box \<times> dataarray \<times> dataarray \<times> string list \<times> message list)" where
  "select_region X f cov inp out =
     and_then (select_box X f cov inp out) (\<lambda>(b, rrs_box, inp', out').
     and_then (where_drop X (dataset_ru f) (box_mask (nav_latitude f) (nav_longitude f) b))
       (\<lambda>rrs_unc_box. Inr (b, rrs_box, rrs_unc_box, inp', out')))"

section \<open>Notions used to state the selector's properties\<close>

text \<open>
  \<open>accepted\<close>: the condition under which \<open>_get_user_boundary\<close> leaves its loop on a
  line, namely that \<open>float\<close> parses the stripped line and the value lies strictly between
  the two limits. \<open>rejection\<close>: what the loop prints for a line it does not accept, the
  prompt followed by one of the two messages.
\<close>

definition accepted :: "externals \<Rightarrow> pyfloat \<Rightarrow> pyfloat \<Rightarrow> string \<Rightarrow> bool" where
  "accepted X lower_bound upper_bound usr_inp =
     (case float_of X (str_strip X usr_inp) of
        None \<Rightarrow> False
      | Some v \<Rightarrow> flt v upper_bound \<and> fgt v lower_bound)"

definition rejection :: "externals \<Rightarrow> pyfloat \<Rightarrow> pyfloat \<Rightarrow> string \<Rightarrow> string \<Rightarrow> message list" where
  "rejection X lower_bound upper_bound card_dir usr_inp =
     [Prompt card_dir upper_bound lower_bound,
      (case float_of X (str_strip X usr_inp) of
         None \<Rightarrow> Must_enter_a_float
       | Some v \<Rightarrow> Value_must_be_between upper_bound lower_bound)]"

text \<open>
  \<open>last_attempt\<close>: the four bounds of \<open>b\<close> were returned by four consecutive prompts in
  the order north, south, east, west, the upper limit of south being the accepted north
  and the upper limit of west the accepted east, and the \<open>where\<close> call on the reflectance
  array succeeded for them.
\<close>

definition last_attempt ::
  "externals \<Rightarrow> l2_file \<Rightarrow> box \<Rightarrow> box \<Rightarrow> dataarray \<Rightarrow> string list \<Rightarrow> message list \<Rightarrow> bool" where
  "last_attempt X f cov b rbox inp' out' =
     (\<exists>inp0 out0 inp1 out1 inp2 out2 inp3 out3.
        get_user_boundary X (south cov) (north cov) ''north'' inp0 out0 = Inr (north b, inp1, out1) \<and>
        get_user_boundary X (south cov) (north b) ''south'' inp1 out1 = Inr (south b, inp2, out2) \<and>
        get_user_boundary X (west cov) (east cov) ''east'' inp2 out2 = Inr (east b, inp3, out3) \<and>
        get_user_boundary X (west cov) (east b) ''west'' inp3 out3 = Inr (west b, inp', out') \<and>
        where_drop X (dataset_r f) (box_mask (nav_latitude f) (nav_longitude f) b) = Inr rbox)"



section \<open>The pixel-wise inversion driver\<close>

text \<open>
  The structure that \<open>estimate_inv_pigments\<close> returns: the box-restricted reflectance
  array \<open>rrs_box\<close> with the four pigment fields added to it (lines 173--176).
\<close>

record pigment_box = dataarray +
  chla :: "pyfloat list list"
  chlb :: "pyfloat list list"
  chlc :: "pyfloat list list"
  ppc :: "pyfloat list list"

text \<open>
  The sizes of the two grid dimensions of an array. All lines of an array have the same
  number of pixels; the model reads it off the first line.
\<close>

definition number_of_lines :: "'a dataarray_scheme \<Rightarrow> nat" where
  "number_of_lines a = length (vals a)"

definition pixels_per_line :: "'a dataarray_scheme \<Rightarrow> nat" where
  "pixels_per_line a = (case vals a of [] \<Rightarrow> 0 | row # _ \<Rightarrow> length row)"

text \<open>\<open>np.full((lines, pixels), np.nan)\<close>.\<close>

definition np_full_nan :: "nat \<Rightarrow> nat \<Rightarrow> pyfloat list list" where
  "np_full_nan lines pixels = replicate lines (replicate pixels NaN)"

text \<open>Reading \<open>a[i][j]\<close> and the assignment \<open>a[i][j] = v\<close> on a two-dimensional array.\<close>

definition index2 :: "'a list list \<Rightarrow> nat \<Rightarrow> nat \<Rightarrow> error + 'a" where
  "index2 a i j = and_then (index a i) (\<lambda>row. index row j)"

definition assign2 :: "'a list list \<Rightarrow> nat \<Rightarrow> nat \<Rightarrow> 'a \<Rightarrow> error + 'a list list" where
  "assign2 a i j v =
     (if i < length a \<and> j < length (a ! i) then Inr (a[i := (a ! i)[j := v]])
      else Inl IndexError)"

text \<open>
  One call of the inversion function, recorded with the cell it was made for and the
  five arguments in the order of the call.
\<close>

record invocation =
  at_line :: nat
  at_pixel :: nat
  arg_rrs :: "pyfloat list"
  arg_rrs_unc :: "pyfloat list"
  arg_wavelengths :: "pyfloat list"
  arg_temp :: pyfloat
  arg_sal :: pyfloat

text \<open>
  What the loop reads and never writes: the wavelengths, the box-restricted uncertainty
  array, the aligned salinity and temperature, and the total \<open>pixels\<close>.
\<close>

record driver_in =
  wavelength_coords :: "pyfloat list"
  rrs_unc_box :: dataarray
  sal :: "pyfloat list list"
  temp :: "pyfloat list list"
  pixels :: nat

text \<open>
  What the loop changes: the counter \<open>progress\<close>, the console, the calls made so far and
  \<open>rrs_box\<close> with its pigment fields.
\<close>

record driver_state =
  progress :: nat
  console :: "message list"
  invocations :: "invocation list"
  rrs_box :: pigment_box

text \<open>The body of the inner loop (lines 185--198) for the cell \<open>(i, j)\<close>.\<close>

definition loop_body ::
  "externals \<Rightarrow> driver_in \<Rightarrow> nat \<Rightarrow> nat \<Rightarrow> driver_state \<Rightarrow> error + driver_state" where
  "loop_body X D i j st =
    (let st1 = st\<lparr>console := console st @ [Progress (progress st) (pixels D)],
                   progress := progress st + 1\<rparr> in
     and_then (index2 (vals (rrs_box st1)) i j) (\<lambda>r.
     and_then (index2 (vals (rrs_unc_box D)) i j) (\<lambda>ru.
     and_then (index2 (sal D) i j) (\<lambda>sal_val.
     and_then (index2 (temp D) i j) (\<lambda>temp_val.
     and_then (index r 0) (\<lambda>r0.
     if \<not> (isnan r0 \<or> isnan sal_val \<or> isnan temp_val) then
       (let st2 = st1\<lparr>invocations := invocations st1 @
                    [\<lparr>at_line = i, at_pixel = j, arg_rrs = r, arg_rrs_unc = ru,
                      arg_wavelengths = wavelength_coords D, arg_temp = temp_val,
                      arg_sal = sal_val\<rparr>]\<rparr> in
        and_then (rrs_inversion_pigments X r ru (wavelength_coords D) temp_val sal_val)
          (\<lambda>groups.
        and_then (index groups 0) (\<lambda>pigs.
        and_then (index pigs 0) (\<lambda>p0.
        and_then (assign2 (chla (rrs_box st2)) i j p0) (\<lambda>a.
        and_then (index pigs 1) (\<lambda>p1.
        and_then (assign2 (chlb (rrs_box st2)) i j p1) (\<lambda>b.
        and_then (index pigs 2) (\<lambda>p2.
        and_then (assign2 (chlc (rrs_box st2)) i j p2) (\<lambda>c.
        and_then (index pigs 3) (\<lambda>p3.
        and_then (assign2 (ppc (rrs_box st2)) i j p3) (\<lambda>d.
          Inr (st2\<lparr>rrs_box := (rrs_box st2)\<lparr>chla := a, chlb := b, chlc := c, ppc := d\<rparr>\<rparr>
          ))))))))))))
     else Inr st1))))))"

text \<open>The two nested \<open>for\<close> loops, over the index lists that \<open>range\<close> yields.\<close>

fun pixel_loop ::
  "externals \<Rightarrow> driver_in \<Rightarrow> nat \<Rightarrow> nat list \<Rightarrow> driver_state \<Rightarrow> error + driver_state" where
  "pixel_loop X D i [] st = Inr st"
| "pixel_loop X D i (j # js) st = and_then (loop_body X D i j st) (pixel_loop X D i js)"

fun line_loop ::
  "externals \<Rightarrow> driver_in \<Rightarrow> nat list \<Rightarrow> nat list \<Rightarrow> driver_state \<Rightarrow> error + driver_state" where
  "line_loop X D [] js st = Inr st"
| "line_loop X D (i # is) js st = and_then (pixel_loop X D i js st) (line_loop X D is js)"

text \<open>
  Lines 173--198: the four fields are allocated, the counter starts at 1, and the loops
  run over every line and pixel index of the box-restricted grid. The final state holds
  the returned \<open>rrs_box\<close>.
\<close>

definition allocate :: "dataarray \<Rightarrow> pigment_box" where
  "allocate b =
     (let full = np_full_nan (number_of_lines b) (pixels_per_line b) in
      dataarray.extend b \<lparr>chla = full, chlb = full, chlc = full, ppc = full\<rparr>)"

definition driver ::
  "externals \<Rightarrow> pyfloat list \<Rightarrow> dataarray \<Rightarrow> dataarray \<Rightarrow> pyfloat list list
    \<Rightarrow> pyfloat list list \<Rightarrow> message list \<Rightarrow> error + driver_state" where
  "driver X wl box unc_box sal_grid temp_grid out =
    (let b = allocate box;
         D = \<lparr>wavelength_coords = wl, rrs_unc_box = unc_box, sal = sal_grid,
              temp = temp_grid, pixels = number_of_lines b * pixels_per_line b\<rparr>;
         st0 = \<lparr>progress = 1, console = out, invocations = [], rrs_box = b\<rparr>
     in line_loop X D [0..<number_of_lines b] [0..<pixels_per_line b] st0)"

section \<open>The auxiliary fields: pre-restriction, unit conversion, alignment\<close>

text \<open>
  A salinity or temperature field on its own latitude and longitude axes:
  \<open>field f ! a ! b\<close> is the value at \<open>(lat_axis f ! a, lon_axis f ! b)\<close>. The temperature
  file holds \<open>analysed_sst\<close> with a leading time dimension.
\<close>

record aux_field =
  lat_axis :: "real list"
  lon_axis :: "real list"
  field :: "pyfloat list list"

record sst_file =
  sst_lat :: "real list"
  sst_lon :: "real list"
  analysed_sst :: "pyfloat list list list"

text \<open>The positional slice \<open>xs[start:stop]\<close> for non-negative bounds.\<close>

definition py_slice :: "'a list \<Rightarrow> nat \<Rightarrow> nat \<Rightarrow> 'a list" where
  "py_slice xs start stop = take (stop - start) (drop start xs)"

text \<open>
  \<open>.sel(dim=slice(a, b))\<close> is xarray and pandas code, not code of this repository. The
  two definitions follow the label-based slicing of a pandas index. On an ascending axis
  the positions run from the first label not below \<open>a\<close> to the last label not above
  \<open>b\<close>; on a descending axis from the first label not above \<open>a\<close> to the last label not
  below \<open>b\<close>; an axis of at most one point, or a constant one, counts as ascending. On an
  axis that is neither, both labels must occur in the axis, each once or in one
  contiguous run, otherwise \<open>KeyError\<close> is raised. In every case the result is the
  positional slice between the two positions, empty when the second is not after the
  first.
\<close>

definition label_bound :: "real list \<Rightarrow> real \<Rightarrow> bool \<Rightarrow> error + nat" where
  "label_bound axis label left =
     (case filter (\<lambda>k. axis ! k = label) [0..<length axis] of
        [] \<Rightarrow> Inl KeyError
      | p # ps \<Rightarrow>
          if p # ps = [p..<p + length (p # ps)]
          then Inr (if left then p else Suc (last (p # ps)))
          else Inl KeyError)"

definition slice_bounds :: "real list \<Rightarrow> real \<Rightarrow> real \<Rightarrow> error + nat \<times> nat" where
  "slice_bounds axis a b =
     (if sorted axis then
        Inr (length (filter (\<lambda>x. x < a) axis), length (filter (\<lambda>x. x \<le> b) axis))
      else if sorted (rev axis) then
        Inr (length (filter (\<lambda>x. a < x) axis), length (filter (\<lambda>x. b \<le> x) axis))
      else
        and_then (label_bound axis a True) (\<lambda>start.
        and_then (label_bound axis b False) (\<lambda>stop. Inr (start, stop))))"

text \<open>
  The slices of both dimensions applied to a field. The bounds are those the operator
  entered, which are numbers; for a NaN bound the model raises \<open>KeyError\<close>.
\<close>

definition sel_slices ::
  "aux_field \<Rightarrow> pyfloat \<Rightarrow> pyfloat \<Rightarrow> pyfloat \<Rightarrow> pyfloat \<Rightarrow> error + aux_field" where
  "sel_slices f lat_from lat_to lon_from lon_to =
     (case (lat_from, lat_to, lon_from, lon_to) of
        (Fin a, Fin b, Fin c, Fin d) \<Rightarrow>
          and_then (slice_bounds (lat_axis f) a b) (\<lambda>(i0, i1).
          and_then (slice_bounds (lon_axis f) c d) (\<lambda>(j0, j1).
            Inr \<lparr>lat_axis = py_slice (lat_axis f) i0 i1,
                 lon_axis = py_slice (lon_axis f) j0 j1,
                 field = map (\<lambda>row. py_slice row j0 j1) (py_slice (field f) i0 i1)\<rparr>))
      | _ \<Rightarrow> Inl KeyError)"

text \<open>
  \<open>temp['analysed_sst'].squeeze()\<close> drops every dimension of size one. With one time
  step and latitude and longitude axes of other sizes the result is the field of that
  step. If the latitude or longitude axis has one point it is dropped too, and the
  \<open>.sel\<close> of the next line raises \<open>KeyError\<close>; the model raises it here. With another
  number of time steps the array keeps three dimensions, which the model does not follow.
\<close>

definition squeeze_sst :: "sst_file \<Rightarrow> error + aux_field" where
  "squeeze_sst t =
     (case analysed_sst t of
        [g] \<Rightarrow>
          if length (sst_lat t) = 1 \<or> length (sst_lon t) = 1 then Inl KeyError
          else Inr \<lparr>lat_axis = sst_lat t, lon_axis = sst_lon t, field = g\<rparr>
      | _ \<Rightarrow> Inl Unsupported)"

text \<open>\<open>temp - 273\<close>, value by value; a missing value stays missing.\<close>

fun fsub :: "pyfloat \<Rightarrow> real \<Rightarrow> pyfloat" where
  "fsub (Fin x) c = Fin (x - c)"
| "fsub NaN c = NaN"

definition minus_273 :: "aux_field \<Rightarrow> aux_field" where
  "minus_273 f = f\<lparr>field := map (map (\<lambda>v. fsub v 273)) (field f)\<rparr>"

text \<open>
  Lines 161--167: the salinity field is cut with the latitude slice \<open>slice(n, s)\<close>, the
  squeezed temperature field with \<open>slice(s, n)\<close>, both with the longitude slice
  \<open>slice(w, e)\<close>; the temperature is then converted.
\<close>

definition restrict_sal :: "aux_field \<Rightarrow> box \<Rightarrow> error + aux_field" where
  "restrict_sal f b = sel_slices f (north b) (south b) (west b) (east b)"

definition restrict_temp :: "sst_file \<Rightarrow> box \<Rightarrow> error + aux_field" where
  "restrict_temp t b =
     and_then (squeeze_sst t) (\<lambda>t1.
     and_then (sel_slices t1 (south b) (north b) (west b) (east b)) (\<lambda>t2.
       Inr (minus_273 t2)))"

text \<open>
  Modelled from the spec: \<open>DataArray.interp(..., method='nearest')\<close> is xarray code that
  the repository's sources do not contain. \<open>nearest p xs\<close> is the position of a point of
  the axis closest to \<open>p\<close>, the smaller coordinate winning a tie (the spec leaves the
  tie-break open).
\<close>

fun nearest :: "real \<Rightarrow> real list \<Rightarrow> nat option" where
  "nearest p [] = None"
| "nearest p (x # xs) =
     (case nearest p xs of
        None \<Rightarrow> Some 0
      | Some k \<Rightarrow>
          if \<bar>x - p\<bar> < \<bar>xs ! k - p\<bar> \<or> (\<bar>x - p\<bar> = \<bar>xs ! k - p\<bar> \<and> x \<le> xs ! k) then Some 0
          else Some (Suc k))"

text \<open>
  Modelled from the spec: a coordinate is within the extent of an axis when the axis has
  a point on either side of it (``a cell with no sample within the queried axis extent
  yields a missing value'').
\<close>

definition in_extent :: "real \<Rightarrow> real list \<Rightarrow> bool" where
  "in_extent p xs = (list_ex (\<lambda>a. a \<le> p) xs \<and> list_ex (\<lambda>b. p \<le> b) xs)"

text \<open>
  Modelled from the spec: the aligned value of one pixel is the value of the field at the
  nearest point of each axis, taken independently per axis, and missing when a coordinate
  of the pixel is missing or outside the extent of its axis.
\<close>

definition lookup_nearest :: "aux_field \<Rightarrow> pyfloat \<Rightarrow> pyfloat \<Rightarrow> pyfloat" where
  "lookup_nearest f la lo =
     (case (la, lo) of
        (Fin y, Fin x) \<Rightarrow>
          if in_extent y (lat_axis f) \<and> in_extent x (lon_axis f) then
            (case (nearest y (lat_axis f), nearest x (lon_axis f)) of
               (Some a, Some b) \<Rightarrow> field f ! a ! b
             | _ \<Rightarrow> NaN)
          else NaN
      | _ \<Rightarrow> NaN)"

text \<open>
  Modelled from the spec: the alignment of a field onto the per-pixel longitudes and
  latitudes of the box-restricted swath, one value per pixel.
\<close>

definition interp_nearest ::
  "aux_field \<Rightarrow> pyfloat list list \<Rightarrow> pyfloat list list \<Rightarrow> pyfloat list list" where
  "interp_nearest f lon_grid lat_grid =
     map2 (map2 (\<lambda>lo la. lookup_nearest f la lo)) lon_grid lat_grid"

text \<open>Lines 161--171 for each of the two fields: pre-restriction, then alignment.\<close>

definition align_sal ::
  "aux_field \<Rightarrow> box \<Rightarrow> pyfloat list list \<Rightarrow> pyfloat list list \<Rightarrow> error + pyfloat list list" where
  "align_sal f b lon_grid lat_grid =
     and_then (restrict_sal f b) (\<lambda>s. Inr (interp_nearest s lon_grid lat_grid))"

definition align_temp ::
  "sst_file \<Rightarrow> box \<Rightarrow> pyfloat list list \<Rightarrow> pyfloat list list \<Rightarrow> error + pyfloat list list" where
  "align_temp t b lon_grid lat_grid =
     and_then (restrict_temp t b) (\<lambda>c. Inr (interp_nearest c lon_grid lat_grid))"

section \<open>\<open>estimate_inv_pigments\<close>\<close>

text \<open>
  \<open>values.max()\<close> and \<open>values.min()\<close> of a two-dimensional array: a NaN element makes
  the result NaN, an empty array raises \<open>ValueError\<close>.
\<close>

fun fmax :: "pyfloat \<Rightarrow> pyfloat \<Rightarrow> pyfloat" where
  "fmax (Fin a) (Fin b) = Fin (max a b)"
| "fmax _ _ = NaN"

fun fmin :: "pyfloat \<Rightarrow> pyfloat \<Rightarrow> pyfloat" where
  "fmin (Fin a) (Fin b) = Fin (min a b)"
| "fmin _ _ = NaN"

definition np_max :: "pyfloat list list \<Rightarrow> error + pyfloat" where
  "np_max a = (case concat a of [] \<Rightarrow> Inl ValueError | x # xs \<Rightarrow> Inr (fold fmax xs x))"

definition np_min :: "pyfloat list list \<Rightarrow> error + pyfloat" where
  "np_min a = (case concat a of [] \<Rightarrow> Inl ValueError | x # xs \<Rightarrow> Inr (fold fmin xs x))"

text \<open>
  The whole function, on the opened files (opening and merging them is taken to
  succeed). It returns the augmented \<open>rrs_box\<close>, and with it the input lines left and
  the console output.
\<close>

definition estimate_inv_pigments ::
  "externals \<Rightarrow> l2_file \<Rightarrow> aux_field \<Rightarrow> sst_file \<Rightarrow> string list
    \<Rightarrow> error + (pigment_box \<times> string list \<times> message list)" where
  "estimate_inv_pigments X f sal_file sst inp =
     and_then (np_max (nav_latitude f)) (\<lambda>n_bound.
     and_then (np_min (nav_latitude f)) (\<lambda>s_bound.
     and_then (np_max (nav_longitude f)) (\<lambda>e_bound.
     and_then (np_min (nav_longitude f)) (\<lambda>w_bound.
     and_then (select_region X f
                 \<lparr>north = n_bound, south = s_bound, east = e_bound, west = w_bound\<rparr> inp
                 [Coverage n_bound s_bound e_bound w_bound, Select_a_boundary_box])
       (\<lambda>(b, box, unc_box, inp', out).
     and_then (restrict_sal sal_file b) (\<lambda>sal_box.
     and_then (restrict_temp sst b) (\<lambda>temp_box.
     and_then (driver X (wavelength_3d f) box unc_box
                 (interp_nearest sal_box (longitude box) (latitude box))
                 (interp_nearest temp_box (longitude box) (latitude box)) out)
       (\<lambda>st. Inr (rrs_box st, inp', console st)))))))))"

section \<open>Notions used to state the driver's properties\<close>

text \<open>
  The condition of line 193, the call of line 194 and its arguments, written for the
  cell \<open>(i, j)\<close> of the reflectance values \<open>v\<close>.
\<close>

definition valid_cell :: "driver_in \<Rightarrow> pyfloat list list list \<Rightarrow> nat \<Rightarrow> nat \<Rightarrow> bool" where
  "valid_cell D v i j =
     (\<not> (isnan (v ! i ! j ! 0) \<or> isnan (sal D ! i ! j) \<or> isnan (temp D ! i ! j)))"

definition cell_invocation :: "driver_in \<Rightarrow> pyfloat list list list \<Rightarrow> nat \<Rightarrow> nat \<Rightarrow> invocation" where
  "cell_invocation D v i j =
     \<lparr>at_line = i, at_pixel = j, arg_rrs = v ! i ! j,
      arg_rrs_unc = vals (rrs_unc_box D) ! i ! j,
      arg_wavelengths = wavelength_coords D, arg_temp = temp D ! i ! j,
      arg_sal = sal D ! i ! j\<rparr>"

definition cell_inversion ::
  "externals \<Rightarrow> driver_in \<Rightarrow> pyfloat list list list \<Rightarrow> nat \<Rightarrow> nat \<Rightarrow> error + pyfloat list list" where
  "cell_inversion X D v i j =
     rrs_inversion_pigments X (v ! i ! j) (vals (rrs_unc_box D) ! i ! j)
       (wavelength_coords D) (temp D ! i ! j) (sal D ! i ! j)"

text \<open>The first result group of the call (\<open>[0]\<close>), empty when the call raised.\<close>

definition cell_pigs ::
  "externals \<Rightarrow> driver_in \<Rightarrow> pyfloat list list list \<Rightarrow> nat \<Rightarrow> nat \<Rightarrow> pyfloat list" where
  "cell_pigs X D v i j = (case cell_inversion X D v i j of Inl err \<Rightarrow> [] | Inr groups \<Rightarrow> groups ! 0)"

text \<open>
  \<open>in_shape a i j\<close>: the index pair is inside the array. \<open>readable\<close>: the five reads of
  lines 189--193 succeed. \<open>put\<close>: the array after \<open>a[i][j] = v\<close>.
\<close>

definition in_shape :: "'a list list \<Rightarrow> nat \<Rightarrow> nat \<Rightarrow> bool" where
  "in_shape a i j = (i < length a \<and> j < length (a ! i))"

definition readable :: "driver_in \<Rightarrow> pyfloat list list list \<Rightarrow> nat \<Rightarrow> nat \<Rightarrow> bool" where
  "readable D v i j =
     (in_shape v i j \<and> 0 < length (v ! i ! j) \<and> in_shape (vals (rrs_unc_box D)) i j \<and>
      in_shape (sal D) i j \<and> in_shape (temp D) i j)"

definition put :: "'a list list \<Rightarrow> nat \<Rightarrow> nat \<Rightarrow> 'a \<Rightarrow> 'a list list" where
  "put a i j v = a[i := (a ! i)[j := v]]"

text \<open>
  \<open>cell_ok\<close>: the loop body raises nothing at this cell, that is, its inputs can be read
  and, where the inversion is called, it returns at least one group of at least four
  values.
\<close>

definition cell_ok :: "externals \<Rightarrow> driver_in \<Rightarrow> pyfloat list list list \<Rightarrow> nat \<Rightarrow> nat \<Rightarrow> bool" where
  "cell_ok X D v i j =
     (readable D v i j \<and>
      (valid_cell D v i j \<longrightarrow>
        (case cell_inversion X D v i j of
           Inl err \<Rightarrow> False
         | Inr groups \<Rightarrow> groups \<noteq> [] \<and> 4 \<le> length (groups ! 0))))"

text \<open>The state after the loop body, for a cell where it raises nothing.\<close>

definition cell_update :: "externals \<Rightarrow> driver_in \<Rightarrow> nat \<Rightarrow> nat \<Rightarrow> driver_state \<Rightarrow> driver_state" where
  "cell_update X D i j st =
     (let v = vals (rrs_box st);
          st1 = st\<lparr>console := console st @ [Progress (progress st) (pixels D)],
                    progress := progress st + 1\<rparr> in
      if valid_cell D v i j then
        (case cell_inversion X D v i j of
           Inl err \<Rightarrow> st1
         | Inr groups \<Rightarrow>
             st1\<lparr>invocations := invocations st @ [cell_invocation D v i j],
                 rrs_box := (rrs_box st)\<lparr>
                   chla := put (chla (rrs_box st)) i j (groups ! 0 ! 0),
                   chlb := put (chlb (rrs_box st)) i j (groups ! 0 ! 1),
                   chlc := put (chlc (rrs_box st)) i j (groups ! 0 ! 2),
                   ppc := put (ppc (rrs_box st)) i j (groups ! 0 ! 3)\<rparr>\<rparr>)
      else st1)"

text \<open>The four pigment fields by number, the loop's inputs and its initial state.\<close>

definition pigment :: "pigment_box \<Rightarrow> nat \<Rightarrow> pyfloat list list" where
  "pigment b k = [chla b, chlb b, chlc b, ppc b] ! k"

definition driver_inputs ::
  "pyfloat list \<Rightarrow> dataarray \<Rightarrow> dataarray \<Rightarrow> pyfloat list list \<Rightarrow> pyfloat list list \<Rightarrow> driver_in" where
  "driver_inputs wl box unc_box sal_grid temp_grid =
     \<lparr>wavelength_coords = wl, rrs_unc_box = unc_box, sal = sal_grid, temp = temp_grid,
      pixels = number_of_lines box * pixels_per_line box\<rparr>"

definition initial_state :: "dataarray \<Rightarrow> message list \<Rightarrow> driver_state" where
  "initial_state box out = \<lparr>progress = 1, console = out, invocations = [], rrs_box = allocate box\<rparr>"

section \<open>A synthetic two-by-two swath\<close>

text \<open>
  Four cells: one fully present, one with missing salinity, one with missing reflectance
  and one fully present. The stand-in for the inversion function returns the fixed first
  group \<open>[1, 2, 3, 4]\<close> and a second group that the driver must ignore.
\<close>

definition demo_inversion ::
  "pyfloat list \<Rightarrow> pyfloat list \<Rightarrow> pyfloat list \<Rightarrow> pyfloat \<Rightarrow> pyfloat \<Rightarrow> error + pyfloat list list" where
  "demo_inversion r ru wl t s = Inr [[Fin 1, Fin 2, Fin 3, Fin 4], [t, s]]"

text \<open>
  A stand-in for \<open>float\<close> on the strings the examples enter, and a stand-in for
  \<open>where(cond, drop=True)\<close>: it keeps the lines and pixels in which the condition holds
  somewhere, blanks the spectra of the cells where it does not hold, and raises
  \<open>ValueError\<close> when it holds nowhere.
\<close>

definition demo_float :: "string \<Rightarrow> pyfloat option" where
  "demo_float = map_of [(''35'', Fin 35), (''15'', Fin 15), (''50'', Fin 50), (''12'', Fin 12),
                        (''11'', Fin 11), (''nan'', NaN)]"

definition demo_where :: "dataarray \<Rightarrow> bool list list \<Rightarrow> error + dataarray" where
  "demo_where a m =
     (if \<not> list_ex (list_ex id) m then Inl ValueError
      else
        (let lines = filter (\<lambda>i. list_ex id (m ! i)) [0..<length m];
             cols = filter (\<lambda>j. list_ex (\<lambda>row. j < length row \<and> row ! j) m)
                      [0..<(case m of [] \<Rightarrow> 0 | row # _ \<Rightarrow> length row)]
         in Inr \<lparr>vals = map (\<lambda>i. map (\<lambda>j. if m ! i ! j then vals a ! i ! j
                                          else map (\<lambda>_. NaN) (vals a ! i ! j)) cols) lines,
                 latitude = map (\<lambda>i. map (\<lambda>j. latitude a ! i ! j) cols) lines,
                 longitude = map (\<lambda>i. map (\<lambda>j. longitude a ! i ! j) cols) lines\<rparr>))"

definition demo_externals :: externals where
  "demo_externals =
     \<lparr>str_strip = (\<lambda>s. s), float_of = demo_float, where_drop = demo_where,
      rrs_inversion_pigments = demo_inversion\<rparr>"

definition demo_box :: dataarray where
  "demo_box =
     \<lparr>vals = [[[Fin 5, Fin 6], [Fin 7, Fin 8]], [[NaN, NaN], [Fin 9, Fin 10]]],
      latitude = [[Fin 20, Fin 20], [Fin 30, Fin 30]],
      longitude = [[Fin 20, Fin 30], [Fin 20, Fin 30]]\<rparr>"

definition demo_unc_box :: dataarray where
  "demo_unc_box = demo_box\<lparr>vals := [[[Fin 0, Fin 0], [Fin 0, Fin 0]], [[NaN, NaN], [Fin 0, Fin 0]]]\<rparr>"

definition demo_sal :: "pyfloat list list" where
  "demo_sal = [[Fin 35, NaN], [Fin 35, Fin 34]]"

definition demo_temp :: "pyfloat list list" where
  "demo_temp = [[Fin 17, Fin 18], [Fin 19, Fin 20]]"

definition demo_final :: driver_state where
  "demo_final =
     \<lparr>progress = 5,
      console = [Progress 1 4, Progress 2 4, Progress 3 4, Progress 4 4],
      invocations =
        [\<lparr>at_line = 0, at_pixel = 0, arg_rrs = [Fin 5, Fin 6], arg_rrs_unc = [Fin 0, Fin 0],
          arg_wavelengths = [Fin 400, Fin 500], arg_temp = Fin 17, arg_sal = Fin 35\<rparr>,
         \<lparr>at_line = 1, at_pixel = 1, arg_rrs = [Fin 9, Fin 10], arg_rrs_unc = [Fin 0, Fin 0],
          arg_wavelengths = [Fin 400, Fin 500], arg_temp = Fin 20, arg_sal = Fin 34\<rparr>],
      rrs_box = dataarray.extend demo_box
        \<lparr>chla = [[Fin 1, NaN], [NaN, Fin 1]], chlb = [[Fin 2, NaN], [NaN, Fin 2]],
         chlc = [[Fin 3, NaN], [NaN, Fin 3]], ppc = [[Fin 4, NaN], [NaN, Fin 4]]\<rparr>\<rparr>"

text \<open>
  A four-by-four swath whose interior two-by-two block is the synthetic swath above, its
  coverage bounds, and the box the operator enters in the examples.
\<close>

definition demo_l2 :: l2_file where
  "demo_l2 =
     \<lparr>wavelength_3d = [Fin 400, Fin 500],
      Rrs = [[[Fin 1, Fin 1], [Fin 1, Fin 1], [Fin 1, Fin 1], [Fin 1, Fin 1]],
             [[Fin 1, Fin 1], [Fin 5, Fin 6], [Fin 7, Fin 8], [Fin 1, Fin 1]],
             [[Fin 1, Fin 1], [NaN, NaN], [Fin 9, Fin 10], [Fin 1, Fin 1]],
             [[Fin 1, Fin 1], [Fin 1, Fin 1], [Fin 1, Fin 1], [Fin 1, Fin 1]]],
      Rrs_unc = [[[Fin 0, Fin 0], [Fin 0, Fin 0], [Fin 0, Fin 0], [Fin 0, Fin 0]],
                 [[Fin 0, Fin 0], [Fin 0, Fin 0], [Fin 0, Fin 0], [Fin 0, Fin 0]],
                 [[Fin 0, Fin 0], [NaN, NaN], [Fin 0, Fin 0], [Fin 0, Fin 0]],
                 [[Fin 0, Fin 0], [Fin 0, Fin 0], [Fin 0, Fin 0], [Fin 0, Fin 0]]],
      nav_latitude = [[Fin 10, Fin 10, Fin 10, Fin 10], [Fin 20, Fin 20, Fin 20, Fin 20],
                      [Fin 30, Fin 30, Fin 30, Fin 30], [Fin 40, Fin 40, Fin 40, Fin 40]],
      nav_longitude = [[Fin 10, Fin 20, Fin 30, Fin 40], [Fin 10, Fin 20, Fin 30, Fin 40],
                       [Fin 10, Fin 20, Fin 30, Fin 40], [Fin 10, Fin 20, Fin 30, Fin 40]]\<rparr>"

definition demo_cov :: box where
  "demo_cov = \<lparr>north = Fin 40, south = Fin 10, east = Fin 40, west = Fin 10\<rparr>"

definition demo_accepted_box :: box where
  "demo_accepted_box = \<lparr>north = Fin 35, south = Fin 15, east = Fin 35, west = Fin 15\<rparr>"

definition demo_prompts_output :: "message list" where
  "demo_prompts_output =
     [Prompt ''north'' (Fin 40) (Fin 10), Must_enter_a_float,
      Prompt ''north'' (Fin 40) (Fin 10), Value_must_be_between (Fin 40) (Fin 10),
      Prompt ''north'' (Fin 40) (Fin 10),
      Prompt ''south'' (Fin 35) (Fin 10), Value_must_be_between (Fin 35) (Fin 10),
      Prompt ''south'' (Fin 35) (Fin 10),
      Prompt ''east'' (Fin 40) (Fin 10),
      Prompt ''west'' (Fin 35) (Fin 10)]"

text \<open>
  A field is well formed when it has one row per latitude and one value per longitude in
  each row.
\<close>

definition wf_field :: "aux_field \<Rightarrow> bool" where
  "wf_field f =
     (length (field f) = length (lat_axis f) \<and>
      (\<forall>row\<in>set (field f). length row = length (lon_axis f)))"

text \<open>
  A salinity file on a descending latitude axis and a temperature file on an ascending
  one, as the two slices assume, the same files with the axis the other way round, and
  the salinity field restricted to the operator's box.
\<close>

definition demo_sal_file :: aux_field where
  "demo_sal_file =
     \<lparr>lat_axis = [40, 30, 20, 10], lon_axis = [10, 20, 30, 40],
      field = [[Fin 31, Fin 32, Fin 33, Fin 34], [Fin 35, Fin 35, Fin 34, Fin 36],
               [Fin 35, Fin 35, NaN, Fin 36], [Fin 37, Fin 38, Fin 39, Fin 30]]\<rparr>"

definition demo_sst_file :: sst_file where
  "demo_sst_file =
     \<lparr>sst_lat = [10, 18, 26, 34], sst_lon = [10, 18, 26, 34],
      analysed_sst = [[[Fin 280, Fin 281, Fin 282, Fin 283], [Fin 284, Fin 290, Fin 291, Fin 285],
                       [Fin 286, Fin 292, Fin 293, Fin 287], [Fin 288, Fin 289, Fin 299, Fin 298]]]\<rparr>"

definition demo_sal_ascending :: aux_field where
  "demo_sal_ascending = demo_sal_file\<lparr>lat_axis := [10, 20, 30, 40]\<rparr>"

definition demo_sst_descending :: sst_file where
  "demo_sst_descending = demo_sst_file\<lparr>sst_lat := [34, 26, 18, 10]\<rparr>"

definition demo_sal_box :: aux_field where
  "demo_sal_box =
     \<lparr>lat_axis = [30, 20], lon_axis = [20, 30], field = [[Fin 35, Fin 34], [Fin 35, NaN]]\<rparr>"

section \<open>Properties of \<open>load_data\<close>\<close>

lemma load_data_some_empty:
  "L2_results = [] \<or> sal_results = [] \<or> temp_results = [] \<Longrightarrow>
     snd (load_data download L2_results sal_results temp_results) = Inl IndexError"
  by (auto simp: load_data_def and_then_def index_def Let_def split: sum.splits)

text \<open>
  C3. The claim is that an empty query result for any of the three datasets is reported
  and the acquisition step completes without an index error. In the code the notice is
  printed and the path list is set to \<open>[]\<close>, but the final
  \<open>return L2_paths[0], sal_paths[0], temp_paths[0]\<close> indexes the empty list: with no
  reflectance granule found the step prints the notice and raises \<open>IndexError\<close>.
\<close>

theorem load_data_empty_L2_raises:
  "load_data (\<lambda>rs folder. map (\<lambda>r. folder @ ''/'' @ r) rs) [] [''sss.nc''] [''sst.nc'']
     = ([No_L2_AOP_data_found], Inl IndexError)"
  by (simp add: load_data_def and_then_def index_def)

section \<open>The loops as folds\<close>

lemma and_then_Inr: "and_then m f = Inr y \<longleftrightarrow> (\<exists>x. m = Inr x \<and> f x = Inr y)"
  by (cases m) (auto simp: and_then_def)

lemma and_then_Inr_simp [simp]: "and_then (Inr x) f = f x"
  by (simp add: and_then_def)

lemma index_Inr: "index xs i = Inr x \<longleftrightarrow> i < length xs \<and> x = xs ! i"
  by (auto simp: index_def)

lemma index2_Inr: "index2 a i j = Inr x \<longleftrightarrow> in_shape a i j \<and> x = a ! i ! j"
  by (auto simp: index2_def and_then_Inr index_Inr in_shape_def)

lemma assign2_Inr: "assign2 a i j v = Inr a' \<longleftrightarrow> in_shape a i j \<and> a' = put a i j v"
  by (auto simp: assign2_def in_shape_def put_def)

lemma loop_body_Inr:
  assumes "loop_body X D i j st = Inr st'"
  shows "st' = cell_update X D i j st \<and> cell_ok X D (vals (rrs_box st)) i j"
  using assms
  by (auto simp: loop_body_def Let_def and_then_Inr index_Inr index2_Inr assign2_Inr
      valid_cell_def cell_inversion_def cell_invocation_def cell_update_def cell_ok_def
      readable_def split: if_splits)

lemma vals_cell_update [simp]: "vals (rrs_box (cell_update X D i j st)) = vals (rrs_box st)"
  by (simp add: cell_update_def Let_def split: sum.splits)

lemma vals_fold_cell_update [simp]:
  "vals (rrs_box (fold (cell_update X D i) js st)) = vals (rrs_box st)"
  by (induction js arbitrary: st) simp_all

lemma pixel_loop_Inr:
  "pixel_loop X D i js st = Inr st' \<Longrightarrow>
     st' = fold (cell_update X D i) js st \<and> (\<forall>j\<in>set js. cell_ok X D (vals (rrs_box st)) i j)"
proof (induction js arbitrary: st)
  case Nil
  then show ?case by simp
next
  case (Cons j js)
  from Cons.prems obtain st1 where s1: "loop_body X D i j st = Inr st1"
    and s2: "pixel_loop X D i js st1 = Inr st'"
    by (auto simp: and_then_Inr)
  from loop_body_Inr [OF s1] have u: "st1 = cell_update X D i j st"
    and ok: "cell_ok X D (vals (rrs_box st)) i j" by simp_all
  from Cons.IH [OF s2] u ok show ?case by simp
qed

lemma vals_fold_fold [simp]:
  "vals (rrs_box (fold (\<lambda>i. fold (cell_update X D i) js) is st)) = vals (rrs_box st)"
  by (induction "is" arbitrary: st) simp_all

lemma line_loop_Inr:
  "line_loop X D is js st = Inr st' \<Longrightarrow>
     st' = fold (\<lambda>i. fold (cell_update X D i) js) is st \<and>
     (\<forall>i\<in>set is. \<forall>j\<in>set js. cell_ok X D (vals (rrs_box st)) i j)"
proof (induction "is" arbitrary: st)
  case Nil
  then show ?case by simp
next
  case (Cons i "is")
  from Cons.prems obtain st1 where s1: "pixel_loop X D i js st = Inr st1"
    and s2: "line_loop X D is js st1 = Inr st'"
    by (auto simp: and_then_Inr)
  from pixel_loop_Inr [OF s1] have u: "st1 = fold (cell_update X D i) js st"
    and ok: "\<forall>j\<in>set js. cell_ok X D (vals (rrs_box st)) i j" by simp_all
  from Cons.IH [OF s2] u ok show ?case by simp
qed

section \<open>The effect of one cell, of one line and of the whole grid\<close>

lemma put_nth:
  "in_shape a i' j' \<Longrightarrow> put a i j v ! i' ! j' = (if i' = i \<and> j' = j then v else a ! i' ! j')"
  by (cases "i' = i"; cases "j' = j") (auto simp: in_shape_def put_def)

lemma put_shape [simp]: "map length (put a i j v) = map length a"
proof (cases "i < length a")
  case True
  then have "(map length a)[i := length (a ! i)] = map length a"
    by (metis length_map list_update_id nth_map)
  then show ?thesis by (simp add: put_def map_update)
next
  case False
  then show ?thesis by (simp add: put_def list_update_beyond)
qed

lemma in_shape_cong: "map length a = map length b \<Longrightarrow> in_shape a i j = in_shape b i j"
  by (metis in_shape_def length_map nth_map)

lemma progress_cell_update [simp]: "progress (cell_update X D i j st) = progress st + 1"
  by (simp add: cell_update_def Let_def split: sum.splits)

lemma console_cell_update [simp]:
  "console (cell_update X D i j st) = console st @ [Progress (progress st) (pixels D)]"
  by (simp add: cell_update_def Let_def split: sum.splits)

lemma coords_cell_update [simp]:
  "latitude (rrs_box (cell_update X D i j st)) = latitude (rrs_box st)"
  "longitude (rrs_box (cell_update X D i j st)) = longitude (rrs_box st)"
  by (simp_all add: cell_update_def Let_def split: sum.splits)

lemma invocations_cell_update:
  "cell_ok X D (vals (rrs_box st)) i j \<Longrightarrow>
   invocations (cell_update X D i j st) =
     invocations st @ (if valid_cell D (vals (rrs_box st)) i j
                       then [cell_invocation D (vals (rrs_box st)) i j] else [])"
  by (auto simp: cell_update_def cell_ok_def Let_def split: sum.splits)

lemma pigment_shape_cell_update [simp]:
  "k < 4 \<Longrightarrow> map length (pigment (rrs_box (cell_update X D i j st)) k)
     = map length (pigment (rrs_box st) k)"
  by (auto simp: cell_update_def pigment_def Let_def numeral_eq_Suc less_Suc_eq split: sum.splits)

lemma pigment_cell_update:
  assumes "cell_ok X D (vals (rrs_box st)) i j" "k < 4" "in_shape (pigment (rrs_box st) k) i' j'"
  shows "pigment (rrs_box (cell_update X D i j st)) k ! i' ! j' =
           (if i' = i \<and> j' = j \<and> valid_cell D (vals (rrs_box st)) i j
            then cell_pigs X D (vals (rrs_box st)) i j ! k
            else pigment (rrs_box st) k ! i' ! j')"
  using assms
  by (auto simp: cell_update_def cell_ok_def cell_pigs_def pigment_def Let_def put_nth
      numeral_eq_Suc less_Suc_eq split: sum.splits)

lemma progress_pixels [simp]:
  "progress (fold (cell_update X D i) js st) = progress st + length js"
  by (induction js arbitrary: st) simp_all


lemma coords_pixels [simp]:
  "latitude (rrs_box (fold (cell_update X D i) js st)) = latitude (rrs_box st)"
  "longitude (rrs_box (fold (cell_update X D i) js st)) = longitude (rrs_box st)"
  by (induction js arbitrary: st) simp_all

lemma invocations_pixels:
  "\<forall>j\<in>set js. cell_ok X D (vals (rrs_box st)) i j \<Longrightarrow>
   invocations (fold (cell_update X D i) js st) =
     invocations st @ map (cell_invocation D (vals (rrs_box st)) i)
                        (filter (valid_cell D (vals (rrs_box st)) i) js)"
proof (induction js arbitrary: st)
  case Nil
  then show ?case by simp
next
  case (Cons j js)
  then show ?case
    using Cons.IH [of "cell_update X D i j st"]
    by (simp add: invocations_cell_update)
qed

lemma pigment_shape_pixels [simp]:
  "k < 4 \<Longrightarrow> map length (pigment (rrs_box (fold (cell_update X D i) js st)) k)
     = map length (pigment (rrs_box st) k)"
  by (induction js arbitrary: st) simp_all

lemma pigment_pixels:
  assumes "\<forall>j\<in>set js. cell_ok X D (vals (rrs_box st)) i j" "distinct js" "k < 4"
    "in_shape (pigment (rrs_box st) k) i' j'"
  shows "pigment (rrs_box (fold (cell_update X D i) js st)) k ! i' ! j' =
           (if i' = i \<and> j' \<in> set js \<and> valid_cell D (vals (rrs_box st)) i j'
            then cell_pigs X D (vals (rrs_box st)) i j' ! k
            else pigment (rrs_box st) k ! i' ! j')"
  using assms
proof (induction js arbitrary: st)
  case Nil
  then show ?case by simp
next
  case (Cons j js)
  let ?st1 = "cell_update X D i j st"
  have shape: "in_shape (pigment (rrs_box ?st1) k) i' j'"
    using Cons.prems(3,4) in_shape_cong [OF pigment_shape_cell_update] by blast
  have ih: "pigment (rrs_box (fold (cell_update X D i) js ?st1)) k ! i' ! j' =
           (if i' = i \<and> j' \<in> set js \<and> valid_cell D (vals (rrs_box st)) i j'
            then cell_pigs X D (vals (rrs_box st)) i j' ! k
            else pigment (rrs_box ?st1) k ! i' ! j')"
    using Cons.IH [of ?st1] Cons.prems shape by simp
  have step: "pigment (rrs_box ?st1) k ! i' ! j' =
           (if i' = i \<and> j' = j \<and> valid_cell D (vals (rrs_box st)) i j
            then cell_pigs X D (vals (rrs_box st)) i j ! k
            else pigment (rrs_box st) k ! i' ! j')"
    using pigment_cell_update [of X D st i j k i' j'] Cons.prems by simp
  show ?case
    using ih step Cons.prems(2) by auto
qed

lemma progress_lines [simp]:
  "progress (fold (\<lambda>i. fold (cell_update X D i) js) is st) = progress st + length is * length js"
  by (induction "is" arbitrary: st) simp_all


lemma coords_lines [simp]:
  "latitude (rrs_box (fold (\<lambda>i. fold (cell_update X D i) js) is st)) = latitude (rrs_box st)"
  "longitude (rrs_box (fold (\<lambda>i. fold (cell_update X D i) js) is st)) = longitude (rrs_box st)"
  by (induction "is" arbitrary: st) simp_all

lemma invocations_lines:
  "\<forall>i\<in>set is. \<forall>j\<in>set js. cell_ok X D (vals (rrs_box st)) i j \<Longrightarrow>
   invocations (fold (\<lambda>i. fold (cell_update X D i) js) is st) =
     invocations st @ concat (map (\<lambda>i. map (cell_invocation D (vals (rrs_box st)) i)
                        (filter (valid_cell D (vals (rrs_box st)) i) js)) is)"
proof (induction "is" arbitrary: st)
  case Nil
  then show ?case by simp
next
  case (Cons i "is")
  then show ?case
    using Cons.IH [of "fold (cell_update X D i) js st"]
    by (simp add: invocations_pixels)
qed

lemma pigment_shape_lines [simp]:
  "k < 4 \<Longrightarrow> map length (pigment (rrs_box (fold (\<lambda>i. fold (cell_update X D i) js) is st)) k)
     = map length (pigment (rrs_box st) k)"
  by (induction "is" arbitrary: st) simp_all

lemma pigment_lines:
  assumes "\<forall>i\<in>set is. \<forall>j\<in>set js. cell_ok X D (vals (rrs_box st)) i j"
    "distinct is" "distinct js" "k < 4" "in_shape (pigment (rrs_box st) k) i' j'"
  shows "pigment (rrs_box (fold (\<lambda>i. fold (cell_update X D i) js) is st)) k ! i' ! j' =
           (if i' \<in> set is \<and> j' \<in> set js \<and> valid_cell D (vals (rrs_box st)) i' j'
            then cell_pigs X D (vals (rrs_box st)) i' j' ! k
            else pigment (rrs_box st) k ! i' ! j')"
  using assms
proof (induction "is" arbitrary: st)
  case Nil
  then show ?case by simp
next
  case (Cons i "is")
  let ?st1 = "fold (cell_update X D i) js st"
  have shape: "in_shape (pigment (rrs_box ?st1) k) i' j'"
    using Cons.prems(4,5) in_shape_cong [OF pigment_shape_pixels] by blast
  have ih: "pigment (rrs_box (fold (\<lambda>i. fold (cell_update X D i) js) is ?st1)) k ! i' ! j' =
           (if i' \<in> set is \<and> j' \<in> set js \<and> valid_cell D (vals (rrs_box st)) i' j'
            then cell_pigs X D (vals (rrs_box st)) i' j' ! k
            else pigment (rrs_box ?st1) k ! i' ! j')"
    using Cons.IH [of ?st1] Cons.prems shape by simp
  have step: "pigment (rrs_box ?st1) k ! i' ! j' =
           (if i' = i \<and> j' \<in> set js \<and> valid_cell D (vals (rrs_box st)) i j'
            then cell_pigs X D (vals (rrs_box st)) i j' ! k
            else pigment (rrs_box st) k ! i' ! j')"
    using pigment_pixels [of js X D st i k i' j'] Cons.prems by simp
  show ?case
    using ih step Cons.prems(2) by auto
qed

section \<open>Allocation and the driver\<close>

lemma allocate_frame [simp]:
  "vals (allocate b) = vals b" "latitude (allocate b) = latitude b"
  "longitude (allocate b) = longitude b"
  by (simp_all add: allocate_def Let_def dataarray.defs)

lemma allocate_dims [simp]:
  "number_of_lines (allocate b) = number_of_lines b"
  "pixels_per_line (allocate b) = pixels_per_line b"
  by (simp_all add: number_of_lines_def pixels_per_line_def)

lemma allocate_pigment:
  "k < 4 \<Longrightarrow> pigment (allocate b) k = np_full_nan (number_of_lines b) (pixels_per_line b)"
  by (auto simp: allocate_def Let_def pigment_def dataarray.defs numeral_eq_Suc less_Suc_eq)

lemma np_full_nan_shape: "in_shape (np_full_nan n m) i j \<longleftrightarrow> i < n \<and> j < m"
  by (auto simp: in_shape_def np_full_nan_def)

lemma np_full_nan_nth: "i < n \<Longrightarrow> j < m \<Longrightarrow> np_full_nan n m ! i ! j = NaN"
  by (simp add: np_full_nan_def)

lemma driver_unfold:
  "driver X wl box unc sg tg out =
     line_loop X (driver_inputs wl box unc sg tg) [0..<number_of_lines box]
       [0..<pixels_per_line box] (initial_state box out)"
  by (simp add: driver_def driver_inputs_def initial_state_def Let_def)

lemma driver_Inr:
  assumes "driver X wl box unc sg tg out = Inr st'"
  shows "st' = fold (\<lambda>i. fold (cell_update X (driver_inputs wl box unc sg tg) i)
                 [0..<pixels_per_line box]) [0..<number_of_lines box] (initial_state box out)"
    and "\<forall>i<number_of_lines box. \<forall>j<pixels_per_line box.
           cell_ok X (driver_inputs wl box unc sg tg) (vals box) i j"
  using line_loop_Inr [OF assms [unfolded driver_unfold]]
  by (simp_all add: initial_state_def)

lemma driver_pigment:
  assumes "driver X wl box unc sg tg out = Inr st'" "k < 4"
    "i < number_of_lines box" "j < pixels_per_line box"
  shows "pigment (rrs_box st') k ! i ! j =
           (if valid_cell (driver_inputs wl box unc sg tg) (vals box) i j
            then cell_pigs X (driver_inputs wl box unc sg tg) (vals box) i j ! k else NaN)"
proof -
  let ?D = "driver_inputs wl box unc sg tg" and ?st0 = "initial_state box out"
  have v: "vals (rrs_box ?st0) = vals box" by (simp add: initial_state_def)
  have ok: "\<forall>i\<in>set [0..<number_of_lines box]. \<forall>j\<in>set [0..<pixels_per_line box].
              cell_ok X ?D (vals (rrs_box ?st0)) i j"
    using driver_Inr(2) [OF assms(1)] v by simp
  have sh: "in_shape (pigment (rrs_box ?st0) k) i j"
    using assms by (simp add: initial_state_def allocate_pigment np_full_nan_shape)
  have "pigment (rrs_box ?st0) k ! i ! j = NaN"
    using assms by (simp add: initial_state_def allocate_pigment np_full_nan_nth)
  then show ?thesis
    using pigment_lines [OF ok _ _ assms(2) sh] driver_Inr(1) [OF assms(1)] assms(3,4) v
    by simp
qed

lemma driver_invocations:
  assumes "driver X wl box unc sg tg out = Inr st'"
  shows "invocations st' =
     concat (map (\<lambda>i. map (cell_invocation (driver_inputs wl box unc sg tg) (vals box) i)
        (filter (valid_cell (driver_inputs wl box unc sg tg) (vals box) i)
           [0..<pixels_per_line box])) [0..<number_of_lines box])"
proof -
  let ?D = "driver_inputs wl box unc sg tg" and ?st0 = "initial_state box out"
  have v: "vals (rrs_box ?st0) = vals box" by (simp add: initial_state_def)
  have ok: "\<forall>i\<in>set [0..<number_of_lines box]. \<forall>j\<in>set [0..<pixels_per_line box].
              cell_ok X ?D (vals (rrs_box ?st0)) i j"
    using driver_Inr(2) [OF assms(1)] v by simp
  show ?thesis
    using invocations_lines [OF ok] driver_Inr(1) [OF assms(1)] v
    by (simp add: initial_state_def)
qed

lemma pigment_fields:
  "chla b = pigment b 0" "chlb b = pigment b 1" "chlc b = pigment b 2" "ppc b = pigment b 3"
  by (simp_all add: pigment_def)

lemma valid_cell_driver:
  "valid_cell (driver_inputs wl box unc sg tg) v i j \<longleftrightarrow>
     \<not> (isnan (v ! i ! j ! 0) \<or> isnan (sg ! i ! j) \<or> isnan (tg ! i ! j))"
  by (simp add: valid_cell_def driver_inputs_def)

lemma cell_invocation_at [simp]:
  "at_line (cell_invocation D v i j) = i" "at_pixel (cell_invocation D v i j) = j"
  by (simp_all add: cell_invocation_def)

lemma filter_eq_distinct:
  "distinct xs \<Longrightarrow> filter (\<lambda>x. P x \<and> x = a) xs = (if a \<in> set xs \<and> P a then [a] else [])"
  by (induction xs) auto

lemma filter_invocations_row:
  "filter (\<lambda>c. at_line c = i \<and> at_pixel c = j) (map (cell_invocation D v i') js) =
     (if i' = i then map (cell_invocation D v i) (filter (\<lambda>j'. j' = j) js) else [])"
  by (induction js) auto

lemma filter_invocations_grid:
  assumes "distinct is" "distinct js"
  shows "filter (\<lambda>c. at_line c = i \<and> at_pixel c = j)
           (concat (map (\<lambda>i'. map (cell_invocation D v i') (filter (P i') js)) is)) =
         (if i \<in> set is \<and> j \<in> set js \<and> P i j then [cell_invocation D v i j] else [])"
  using assms(1)
proof (induction "is")
  case Nil
  then show ?case by simp
next
  case (Cons a "is")
  have row: "filter (\<lambda>c. at_line c = i \<and> at_pixel c = j)
               (map (cell_invocation D v a) (filter (P a) js)) =
             (if a = i \<and> j \<in> set js \<and> P i j then [cell_invocation D v i j] else [])"
    using assms(2) by (simp add: filter_invocations_row filter_eq_distinct)
  from Cons show ?case
    by (auto simp: row)
qed

text \<open>
  The driver returns whenever every cell can be read and the inversion function returns
  a well-formed result on the cells it is called for.
\<close>

lemma loop_body_total:
  assumes "cell_ok X D (vals (rrs_box st)) i j" "\<forall>k<4. in_shape (pigment (rrs_box st) k) i j"
  shows "loop_body X D i j st = Inr (cell_update X D i j st)"
proof -
  have sh: "in_shape (chla (rrs_box st)) i j" "in_shape (chlb (rrs_box st)) i j"
    "in_shape (chlc (rrs_box st)) i j" "in_shape (ppc (rrs_box st)) i j"
    using assms(2) by (simp_all add: pigment_fields)
  have rd: "index2 (vals (rrs_box st)) i j = Inr (vals (rrs_box st) ! i ! j)"
    "index2 (vals (rrs_unc_box D)) i j = Inr (vals (rrs_unc_box D) ! i ! j)"
    "index2 (sal D) i j = Inr (sal D ! i ! j)" "index2 (temp D) i j = Inr (temp D ! i ! j)"
    "index (vals (rrs_box st) ! i ! j) 0 = Inr (vals (rrs_box st) ! i ! j ! 0)"
    using assms(1) by (simp_all add: cell_ok_def readable_def index2_Inr index_Inr)
  have wr: "\<And>a v. in_shape a i j \<Longrightarrow> assign2 a i j v = Inr (put a i j v)"
    by (simp add: assign2_Inr)
  show ?thesis
  proof (cases "valid_cell D (vals (rrs_box st)) i j")
    case False
    then show ?thesis
      by (auto simp: loop_body_def Let_def rd cell_update_def valid_cell_def)
  next
    case True
    with assms(1) obtain groups where g: "cell_inversion X D (vals (rrs_box st)) i j = Inr groups"
      and wf: "groups \<noteq> []" "4 \<le> length (groups ! 0)"
      by (auto simp: cell_ok_def split: sum.splits)
    have ix: "index groups 0 = Inr (groups ! 0)" "index (groups ! 0) 0 = Inr (groups ! 0 ! 0)"
      "index (groups ! 0) (Suc 0) = Inr (groups ! 0 ! 1)" "index (groups ! 0) 2 = Inr (groups ! 0 ! 2)"
      "index (groups ! 0) 3 = Inr (groups ! 0 ! 3)"
      using wf by (auto simp: index_Inr)
    from True g show ?thesis
      using True
      by (simp add: loop_body_def Let_def rd cell_update_def valid_cell_def ix wr sh
          cell_inversion_def cell_invocation_def)
  qed
qed

lemma pixel_loop_total:
  assumes "\<forall>j\<in>set js. cell_ok X D (vals (rrs_box st)) i j \<and>
             (\<forall>k<4. in_shape (pigment (rrs_box st) k) i j)"
  shows "pixel_loop X D i js st = Inr (fold (cell_update X D i) js st)"
  using assms
proof (induction js arbitrary: st)
  case Nil
  then show ?case by simp
next
  case (Cons j js)
  let ?st1 = "cell_update X D i j st"
  have "loop_body X D i j st = Inr ?st1"
    using Cons.prems by (simp add: loop_body_total)
  moreover have "\<forall>j'\<in>set js. cell_ok X D (vals (rrs_box ?st1)) i j' \<and>
             (\<forall>k<4. in_shape (pigment (rrs_box ?st1) k) i j')"
    using Cons.prems in_shape_cong [OF pigment_shape_cell_update] by simp
  ultimately show ?case
    using Cons.IH [of ?st1] by simp
qed

lemma line_loop_total:
  assumes "\<forall>i\<in>set is. \<forall>j\<in>set js. cell_ok X D (vals (rrs_box st)) i j \<and>
             (\<forall>k<4. in_shape (pigment (rrs_box st) k) i j)"
  shows "line_loop X D is js st = Inr (fold (\<lambda>i. fold (cell_update X D i) js) is st)"
  using assms
proof (induction "is" arbitrary: st)
  case Nil
  then show ?case by simp
next
  case (Cons i "is")
  let ?st1 = "fold (cell_update X D i) js st"
  have "pixel_loop X D i js st = Inr ?st1"
    using Cons.prems by (simp add: pixel_loop_total)
  moreover have "\<forall>i'\<in>set is. \<forall>j\<in>set js. cell_ok X D (vals (rrs_box ?st1)) i' j \<and>
             (\<forall>k<4. in_shape (pigment (rrs_box ?st1) k) i' j)"
    using Cons.prems in_shape_cong [OF pigment_shape_pixels] by simp
  ultimately show ?case
    using Cons.IH [of ?st1] by simp
qed

lemma driver_completes:
  assumes "\<forall>i<number_of_lines box. \<forall>j<pixels_per_line box.
             cell_ok X (driver_inputs wl box unc sg tg) (vals box) i j"
  shows "\<exists>st'. driver X wl box unc sg tg out = Inr st'"
proof -
  have "\<forall>i\<in>set [0..<number_of_lines box]. \<forall>j\<in>set [0..<pixels_per_line box].
          cell_ok X (driver_inputs wl box unc sg tg) (vals (rrs_box (initial_state box out))) i j \<and>
          (\<forall>k<4. in_shape (pigment (rrs_box (initial_state box out)) k) i j)"
    using assms by (simp add: initial_state_def allocate_pigment np_full_nan_shape)
  from line_loop_total [OF this] show ?thesis
    by (simp add: driver_unfold)
qed

text \<open>The run on the synthetic swath.\<close>

lemma demo_run:
  "driver demo_externals [Fin 400, Fin 500] demo_box demo_unc_box demo_sal demo_temp [] =
     Inr demo_final"
  by (simp add: driver_def allocate_def Let_def number_of_lines_def pixels_per_line_def
      np_full_nan_def demo_box_def demo_unc_box_def demo_sal_def demo_temp_def demo_externals_def
      demo_inversion_def loop_body_def index2_def index_def assign2_def upt_rec
      numeral_eq_Suc dataarray.defs pigment_box.defs demo_final_def)

lemmas demo_defs = demo_box_def demo_unc_box_def demo_sal_def demo_temp_def demo_externals_def
  demo_inversion_def demo_final_def number_of_lines_def pixels_per_line_def dataarray.defs
  pigment_box.defs

text \<open>On the synthetic swath every cell is readable, so the driver returns.\<close>

theorem driver_completes_witness:
  "\<exists>st'. driver demo_externals [Fin 400, Fin 500] demo_box demo_unc_box demo_sal demo_temp []
           = Inr st'"
proof (rule driver_completes)
  show "\<forall>i<number_of_lines demo_box. \<forall>j<pixels_per_line demo_box.
          cell_ok demo_externals
            (driver_inputs [Fin 400, Fin 500] demo_box demo_unc_box demo_sal demo_temp)
            (vals demo_box) i j"
    by (simp add: demo_defs cell_ok_def readable_def in_shape_def valid_cell_def
        cell_inversion_def driver_inputs_def numeral_eq_Suc less_Suc_eq all_conj_distrib)
qed

section \<open>Claims about the driver\<close>

text \<open>
  C1. A cell of the box-restricted grid whose leading reflectance value, aligned salinity
  or aligned temperature is missing is skipped: after the driver loop has completed, its
  four pigment outputs (chla, chlb, chlc, ppc) are the missing sentinel, and no call of
  the inversion function was made for that cell.
\<close>

theorem skipped_cell_stays_missing:
  assumes run: "driver X wl box unc sal_grid temp_grid out = Inr st'"
    and i: "i < number_of_lines box" and j: "j < pixels_per_line box"
    and miss: "isnan (vals box ! i ! j ! 0) \<or> isnan (sal_grid ! i ! j) \<or> isnan (temp_grid ! i ! j)"
  shows "chla (rrs_box st') ! i ! j = NaN \<and> chlb (rrs_box st') ! i ! j = NaN \<and>
         chlc (rrs_box st') ! i ! j = NaN \<and> ppc (rrs_box st') ! i ! j = NaN \<and>
         (\<forall>c\<in>set (invocations st'). \<not> (at_line c = i \<and> at_pixel c = j))"
proof -
  let ?D = "driver_inputs wl box unc sal_grid temp_grid"
  have inv: "\<not> valid_cell ?D (vals box) i j"
    using miss by (simp add: valid_cell_driver)
  have "\<forall>k<4. pigment (rrs_box st') k ! i ! j = NaN"
    using driver_pigment [OF run _ i j] inv by simp
  then have fields: "chla (rrs_box st') ! i ! j = NaN \<and> chlb (rrs_box st') ! i ! j = NaN \<and>
         chlc (rrs_box st') ! i ! j = NaN \<and> ppc (rrs_box st') ! i ! j = NaN"
    by (simp add: pigment_fields)
  have "\<forall>c\<in>set (invocations st'). \<not> (at_line c = i \<and> at_pixel c = j)"
    using inv by (auto simp: driver_invocations [OF run])
  with fields show ?thesis by blast
qed

theorem skipped_cell_stays_missing_witness:
  "isnan (demo_sal ! 0 ! 1) \<and>
   chla (rrs_box demo_final) ! 0 ! 1 = NaN \<and> chlb (rrs_box demo_final) ! 0 ! 1 = NaN \<and>
   chlc (rrs_box demo_final) ! 0 ! 1 = NaN \<and> ppc (rrs_box demo_final) ! 0 ! 1 = NaN \<and>
   filter (\<lambda>c. at_line c = 0 \<and> at_pixel c = 1) (invocations demo_final) = []"
  using skipped_cell_stays_missing [OF demo_run, of 0 1]
  by (simp add: demo_defs)





lemma driver_progress_variable:
  assumes run: "driver X wl box unc sal_grid temp_grid out = Inr st'"
  shows "progress st' = Suc (number_of_lines box * pixels_per_line box)"
  using driver_Inr(1) [OF run] by (simp add: initial_state_def)

text \<open>
  C9. The four pigment fields are allocated with the (line, pixel) shape of the
  box-restricted grid, filled with the missing sentinel, before the loop runs. After the
  loop they still have this shape, every cell the inversion was not called for still
  holds the missing sentinel, and the returned structure is the reflectance subset with
  its values and per-pixel latitude and longitude unchanged, extended by the four fields.
\<close>

theorem pigment_fields_frame:
  assumes run: "driver X wl box unc sal_grid temp_grid out = Inr st'"
  shows "dataarray.truncate (rrs_box st') = box \<and>
         chla (allocate box) = np_full_nan (number_of_lines box) (pixels_per_line box) \<and>
         chlb (allocate box) = np_full_nan (number_of_lines box) (pixels_per_line box) \<and>
         chlc (allocate box) = np_full_nan (number_of_lines box) (pixels_per_line box) \<and>
         ppc (allocate box) = np_full_nan (number_of_lines box) (pixels_per_line box) \<and>
         map length (chla (rrs_box st')) = replicate (number_of_lines box) (pixels_per_line box) \<and>
         map length (chlb (rrs_box st')) = replicate (number_of_lines box) (pixels_per_line box) \<and>
         map length (chlc (rrs_box st')) = replicate (number_of_lines box) (pixels_per_line box) \<and>
         map length (ppc (rrs_box st')) = replicate (number_of_lines box) (pixels_per_line box) \<and>
         (\<forall>i<number_of_lines box. \<forall>j<pixels_per_line box.
            (\<forall>c\<in>set (invocations st'). \<not> (at_line c = i \<and> at_pixel c = j)) \<longrightarrow>
            chla (rrs_box st') ! i ! j = NaN \<and> chlb (rrs_box st') ! i ! j = NaN \<and>
            chlc (rrs_box st') ! i ! j = NaN \<and> ppc (rrs_box st') ! i ! j = NaN)"
proof -
  let ?D = "driver_inputs wl box unc sal_grid temp_grid"
  let ?nl = "number_of_lines box" and ?np = "pixels_per_line box"
  note st = driver_Inr(1) [OF run]
  have "vals (rrs_box st') = vals box" "latitude (rrs_box st') = latitude box"
    "longitude (rrs_box st') = longitude box"
    using st by (simp_all add: initial_state_def)
  then have frame: "dataarray.truncate (rrs_box st') = box"
    by (simp add: dataarray.defs)
  have alloc: "\<forall>k<4. pigment (allocate box) k = np_full_nan ?nl ?np"
    by (simp add: allocate_pigment)
  have "\<forall>k<4. map length (pigment (rrs_box st') k) = map length (np_full_nan ?nl ?np)"
    using st by (simp add: initial_state_def allocate_pigment)
  then have shape: "\<forall>k<4. map length (pigment (rrs_box st') k) = replicate ?nl ?np"
    by (simp add: np_full_nan_def)
  have keep: "chla (rrs_box st') ! i ! j = NaN \<and> chlb (rrs_box st') ! i ! j = NaN \<and>
            chlc (rrs_box st') ! i ! j = NaN \<and> ppc (rrs_box st') ! i ! j = NaN"
    if i: "i < ?nl" and j: "j < ?np"
      and none: "\<forall>c\<in>set (invocations st'). \<not> (at_line c = i \<and> at_pixel c = j)" for i j
  proof -
    have "filter (\<lambda>c. at_line c = i \<and> at_pixel c = j) (invocations st') = []"
      using none by (simp add: filter_empty_conv)
    then have "\<not> valid_cell ?D (vals box) i j"
      using i j by (simp add: driver_invocations [OF run] filter_invocations_grid split: if_splits)
    then have "\<forall>k<4. pigment (rrs_box st') k ! i ! j = NaN"
      using driver_pigment [OF run _ i j] by simp
    then show ?thesis by (simp add: pigment_fields)
  qed
  from frame alloc shape keep show ?thesis
    by (simp add: pigment_fields)
qed

theorem pigment_fields_frame_witness:
  "dataarray.truncate (rrs_box demo_final) = demo_box \<and>
   chla (allocate demo_box) = [[NaN, NaN], [NaN, NaN]] \<and>
   map length (chla (rrs_box demo_final)) = [2, 2] \<and>
   chla (rrs_box demo_final) ! 1 ! 0 = NaN \<and> ppc (rrs_box demo_final) ! 1 ! 0 = NaN"
  using pigment_fields_frame [OF demo_run]
  by (simp add: demo_defs np_full_nan_def numeral_eq_Suc)

section \<open>The prompt loop and the selection loop\<close>

lemma get_user_boundary_accept:
  "accepted X lo hi l \<Longrightarrow>
     get_user_boundary X lo hi d (l # ls) out =
       Inr (the (float_of X (str_strip X l)), ls, out @ [Prompt d hi lo])"
  by (auto simp: accepted_def Let_def split: option.splits)

lemma get_user_boundary_reject:
  "\<not> accepted X lo hi l \<Longrightarrow>
     get_user_boundary X lo hi d (l # ls) out =
       get_user_boundary X lo hi d ls (out @ rejection X lo hi d l)"
  by (auto simp: accepted_def rejection_def Let_def split: option.splits)

lemma get_user_boundary_closed_form:
  "get_user_boundary X lo hi d inp out =
     (case dropWhile (\<lambda>l. \<not> accepted X lo hi l) inp of
        [] \<Rightarrow> Inl EOFError
      | l # rest \<Rightarrow>
          Inr (the (float_of X (str_strip X l)), rest,
               out @ concat (map (rejection X lo hi d) (takeWhile (\<lambda>l. \<not> accepted X lo hi l) inp))
                   @ [Prompt d hi lo]))"
proof (induction inp arbitrary: out)
  case Nil
  then show ?case by simp
next
  case (Cons l ls)
  show ?case
  proof (cases "accepted X lo hi l")
    case True
    then show ?thesis
      by (simp add: get_user_boundary_accept del: get_user_boundary.simps)
  next
    case False
    then show ?thesis
      using Cons.IH [of "out @ rejection X lo hi d l"]
      by (simp add: get_user_boundary_reject del: get_user_boundary.simps cong: list.case_cong)
  qed
qed


lemma get_user_boundary_bounds:
  assumes "get_user_boundary X lo hi d inp out = Inr (v, inp', out')"
  shows "flt v hi \<and> flt lo v"
proof -
  from assms obtain l where l: "dropWhile (\<lambda>l. \<not> accepted X lo hi l) inp = l # inp'"
    and v: "v = the (float_of X (str_strip X l))"
    by (auto simp: get_user_boundary_closed_form split: list.splits)
  from l have "accepted X lo hi l"
    by (metis hd_dropWhile list.distinct(1) list.sel(1))
  with v show ?thesis
    by (auto simp: accepted_def fgt_def split: option.splits)
qed

lemma select_box_last_attempt:
  "select_box X f cov inp out = Inr (b, rbox, inp', out') \<Longrightarrow>
     last_attempt X f cov b rbox inp' out'"
proof (induction X f cov inp out rule: select_box.induct)
  case (1 X f cov inp out)
  from "1.prems" obtain n inp1 out1 s inp2 out2 e inp3 out3 w inp4 out4
    where g1: "get_user_boundary X (south cov) (north cov) ''north'' inp out = Inr (n, inp1, out1)"
      and g2: "get_user_boundary X (south cov) n ''south'' inp1 out1 = Inr (s, inp2, out2)"
      and g3: "get_user_boundary X (west cov) (east cov) ''east'' inp2 out2 = Inr (e, inp3, out3)"
      and g4: "get_user_boundary X (west cov) e ''west'' inp3 out3 = Inr (w, inp4, out4)"
    by (subst (asm) select_box.simps) (auto split: sum.splits)
  let ?b = "\<lparr>north = n, south = s, east = e, west = w\<rparr>"
  let ?w = "where_drop X (dataset_r f) (box_mask (nav_latitude f) (nav_longitude f) ?b)"
  show ?case
  proof (cases ?w)
    case (Inr rb)
    with "1.prems" g1 g2 g3 g4 have "b = ?b" "rbox = rb" "inp' = inp4" "out' = out4"
      by (subst (asm) select_box.simps; simp add: Let_def)+
    with g1 g2 g3 g4 Inr show ?thesis
      unfolding last_attempt_def by fastforce
  next
    case (Inl err)
    with "1.prems" g1 g2 g3 g4 have v: "err = ValueError"
      and rec: "select_box X f cov inp4
                  (out4 @ [Could_not_create_boundary_box, Try_increasing_the_size]) =
                Inr (b, rbox, inp', out')"
      by (subst (asm) select_box.simps; simp add: Let_def split: if_splits)+
    from "1.IH" [OF g1 refl refl g2 refl refl g3 refl refl g4 refl refl refl Inl v rec]
    show ?thesis .
  qed
qed



lemma demo_select:
  "select_box demo_externals demo_l2 demo_cov
     [''north'', ''50'', ''35'', ''nan'', ''15'', ''35'', ''15'', ''left over''] [] =
   Inr (demo_accepted_box, demo_box, [''left over''], demo_prompts_output)"
  by code_simp





section \<open>Claims about the region selector\<close>

text \<open>
  C6. Each prompt repeats until a line parses as a number that lies strictly between its
  lower and upper limit: lines that do not are answered with the prompt and a message and
  the loop goes on, and nothing but the end of the input (\<open>EOFError\<close>) makes it raise.
  The four prompts are made in the order north, south, east, west, south being limited
  above by the accepted north and west by the accepted east; so every accepted box has
  south < north and west < east, and lies strictly inside the coverage bounds.
\<close>

theorem region_selector_valid_box:
  "get_user_boundary X lo hi d ls ms =
     (case dropWhile (\<lambda>l. \<not> accepted X lo hi l) ls of
        [] \<Rightarrow> Inl EOFError
      | l # rest \<Rightarrow>
          Inr (the (float_of X (str_strip X l)), rest,
               ms @ concat (map (rejection X lo hi d) (takeWhile (\<lambda>l. \<not> accepted X lo hi l) ls))
                  @ [Prompt d hi lo])) \<and>
   (select_box X f cov inp out = Inr (b, rb, inp', out') \<longrightarrow>
      last_attempt X f cov b rb inp' out' \<and>
      flt (south b) (north b) \<and> flt (west b) (east b) \<and>
      flt (south cov) (south b) \<and> flt (north b) (north cov) \<and>
      flt (west cov) (west b) \<and> flt (east b) (east cov))"
proof (intro conjI impI)
  show "get_user_boundary X lo hi d ls ms =
     (case dropWhile (\<lambda>l. \<not> accepted X lo hi l) ls of
        [] \<Rightarrow> Inl EOFError
      | l # rest \<Rightarrow>
          Inr (the (float_of X (str_strip X l)), rest,
               ms @ concat (map (rejection X lo hi d) (takeWhile (\<lambda>l. \<not> accepted X lo hi l) ls))
                  @ [Prompt d hi lo]))"
    by (rule get_user_boundary_closed_form)
next
  assume run: "select_box X f cov inp out = Inr (b, rb, inp', out')"
  then show la: "last_attempt X f cov b rb inp' out'"
    by (rule select_box_last_attempt)
  then obtain inp0 out0 inp1 out1 inp2 out2 inp3 out3 where
    g1: "get_user_boundary X (south cov) (north cov) ''north'' inp0 out0 = Inr (north b, inp1, out1)" and
    g2: "get_user_boundary X (south cov) (north b) ''south'' inp1 out1 = Inr (south b, inp2, out2)" and
    g3: "get_user_boundary X (west cov) (east cov) ''east'' inp2 out2 = Inr (east b, inp3, out3)" and
    g4: "get_user_boundary X (west cov) (east b) ''west'' inp3 out3 = Inr (west b, inp', out')"
    unfolding last_attempt_def by blast
  from get_user_boundary_bounds [OF g1] get_user_boundary_bounds [OF g2]
    get_user_boundary_bounds [OF g3] get_user_boundary_bounds [OF g4]
  show "flt (south b) (north b)" "flt (west b) (east b)" "flt (south cov) (south b)"
    "flt (north b) (north cov)" "flt (west cov) (west b)" "flt (east b) (east cov)"
    by simp_all
qed

theorem region_selector_valid_box_witness:
  "select_box demo_externals demo_l2 demo_cov
     [''north'', ''50'', ''35'', ''nan'', ''15'', ''35'', ''15'', ''left over''] [] =
     Inr (demo_accepted_box, demo_box, [''left over''], demo_prompts_output) \<and>
   flt (south demo_accepted_box) (north demo_accepted_box) \<and>
   flt (west demo_accepted_box) (east demo_accepted_box) \<and>
   flt (south demo_cov) (south demo_accepted_box) \<and>
   flt (north demo_accepted_box) (north demo_cov)"
  using region_selector_valid_box [of demo_externals "Fin 10" "Fin 40" "''north''" "[]" "[]"
      demo_l2 demo_cov "[''north'', ''50'', ''35'', ''nan'', ''15'', ''35'', ''15'', ''left over'']"
      "[]" demo_accepted_box demo_box "[''left over'']" demo_prompts_output]
    demo_select
  by simp




section \<open>Label slices\<close>

lemma flt_Fin: "flt a b \<Longrightarrow> \<exists>x y. a = Fin x \<and> b = Fin y \<and> x < y"
  by (cases a; cases b) auto

lemma filter_length_mono:
  "(\<And>x. P x \<Longrightarrow> Q x) \<Longrightarrow> length (filter P xs) \<le> length (filter Q xs)"
  by (induction xs) auto

lemma take_filter_le_sorted:
  "sorted xs \<Longrightarrow> take (length (filter (\<lambda>x. x \<le> b) xs)) xs = filter (\<lambda>x. x \<le> (b::real)) xs"
proof (induction xs)
  case Nil
  then show ?case by simp
next
  case (Cons x xs)
  show ?case
  proof (cases "x \<le> b")
    case True
    with Cons show ?thesis by simp
  next
    case False
    with Cons.prems have "\<forall>y\<in>set xs. \<not> y \<le> b" by auto
    then have "filter (\<lambda>x. x \<le> b) xs = []" by (simp add: filter_empty_conv)
    with False show ?thesis by simp
  qed
qed

lemma slice_sorted:
  "sorted xs \<Longrightarrow>
     py_slice xs (length (filter (\<lambda>x. x < a) xs)) (length (filter (\<lambda>x. x \<le> b) xs)) =
       filter (\<lambda>x. a \<le> x \<and> x \<le> (b::real)) xs"
proof (induction xs)
  case Nil
  then show ?case by (simp add: py_slice_def)
next
  case (Cons x xs)
  show ?case
  proof (cases "x < a")
    case True
    show ?thesis
    proof (cases "x \<le> b")
      case True
      with \<open>x < a\<close> Cons show ?thesis by (simp add: py_slice_def)
    next
      case False
      with Cons.prems have "\<forall>y\<in>set xs. \<not> y \<le> b" by auto
      then have "filter (\<lambda>x. x \<le> b) xs = []" "filter (\<lambda>x. a \<le> x \<and> x \<le> b) xs = []"
        by (simp_all add: filter_empty_conv)
      with False \<open>x < a\<close> show ?thesis by (simp add: py_slice_def)
    qed
  next
    case False
    with Cons.prems have ge: "\<forall>y\<in>set (x # xs). a \<le> y" by auto
    then have "filter (\<lambda>x. x < a) (x # xs) = []"
      by (auto simp: filter_empty_conv)
    moreover have "filter (\<lambda>x. a \<le> x \<and> x \<le> b) (x # xs) = filter (\<lambda>x. x \<le> b) (x # xs)"
      using ge by (intro filter_cong) auto
    ultimately show ?thesis
      using take_filter_le_sorted [OF Cons.prems, of b] by (simp add: py_slice_def)
  qed
qed

lemma take_filter_ge_sorted_rev:
  "sorted (rev xs) \<Longrightarrow> take (length (filter (\<lambda>x. b \<le> x) xs)) xs = filter (\<lambda>x. (b::real) \<le> x) xs"
proof (induction xs)
  case Nil
  then show ?case by simp
next
  case (Cons x xs)
  from Cons.prems have s: "sorted (rev xs)" and le: "\<forall>y\<in>set xs. y \<le> x"
    by (auto simp: sorted_append)
  show ?case
  proof (cases "b \<le> x")
    case True
    with Cons.IH [OF s] show ?thesis by simp
  next
    case False
    with le have "\<forall>y\<in>set xs. \<not> b \<le> y" by auto
    then have "filter (\<lambda>x. b \<le> x) xs = []" by (simp add: filter_empty_conv)
    with False show ?thesis by simp
  qed
qed

lemma slice_sorted_rev:
  "sorted (rev xs) \<Longrightarrow>
     py_slice xs (length (filter (\<lambda>x. a < x) xs)) (length (filter (\<lambda>x. b \<le> x) xs)) =
       filter (\<lambda>x. b \<le> x \<and> x \<le> (a::real)) xs"
proof (induction xs)
  case Nil
  then show ?case by (simp add: py_slice_def)
next
  case (Cons x xs)
  from Cons.prems have s: "sorted (rev xs)" and le: "\<forall>y\<in>set xs. y \<le> x"
    by (auto simp: sorted_append)
  show ?case
  proof (cases "a < x")
    case True
    show ?thesis
    proof (cases "b \<le> x")
      case True
      with \<open>a < x\<close> Cons.IH [OF s] show ?thesis by (simp add: py_slice_def)
    next
      case False
      with le have "\<forall>y\<in>set xs. \<not> b \<le> y" by auto
      then have "filter (\<lambda>x. b \<le> x) xs = []" "filter (\<lambda>x. b \<le> x \<and> x \<le> a) xs = []"
        by (simp_all add: filter_empty_conv)
      with False \<open>a < x\<close> show ?thesis by (simp add: py_slice_def)
    qed
  next
    case False
    with le have ge: "\<forall>y\<in>set (x # xs). y \<le> a" by auto
    then have "filter (\<lambda>x. a < x) (x # xs) = []"
      by (auto simp: filter_empty_conv)
    moreover have "filter (\<lambda>x. b \<le> x \<and> x \<le> a) (x # xs) = filter (\<lambda>x. b \<le> x) (x # xs)"
      using ge by (intro filter_cong) auto
    ultimately show ?thesis
      using take_filter_ge_sorted_rev [OF Cons.prems, of b] by (simp add: py_slice_def)
  qed
qed

lemma py_slice_empty: "stop \<le> start \<Longrightarrow> py_slice xs start stop = []"
  by (simp add: py_slice_def)

lemma slice_bounds_ascending:
  "sorted axis \<Longrightarrow> slice_bounds axis a b =
     Inr (length (filter (\<lambda>x. x < a) axis), length (filter (\<lambda>x. x \<le> b) axis))"
  by (simp add: slice_bounds_def)

lemma slice_bounds_descending:
  "\<not> sorted axis \<Longrightarrow> sorted (rev axis) \<Longrightarrow> slice_bounds axis a b =
     Inr (length (filter (\<lambda>x. a < x) axis), length (filter (\<lambda>x. b \<le> x) axis))"
  by (simp add: slice_bounds_def)

lemma sel_slices_lat:
  assumes "sel_slices f (Fin a) (Fin b) lon_from lon_to = Inr f'"
  shows "\<exists>i0 i1. slice_bounds (lat_axis f) a b = Inr (i0, i1) \<and>
           lat_axis f' = py_slice (lat_axis f) i0 i1 \<and>
           length (field f') = length (py_slice (field f) i0 i1)"
  using assms
  by (auto simp: sel_slices_def and_then_Inr split: pyfloat.splits)

lemma sel_slices_empty:
  assumes "sel_slices f (Fin a) (Fin b) lon_from lon_to = Inr f'"
    and "slice_bounds (lat_axis f) a b = Inr (i0, i1)" and "i1 \<le> i0"
  shows "lat_axis f' = [] \<and> field f' = []"
  using sel_slices_lat [OF assms(1)] assms(2,3) by (auto simp: py_slice_empty)

lemma restrict_temp_Inr:
  assumes "restrict_temp t b = Inr t'"
  shows "\<exists>t1 t2. squeeze_sst t = Inr t1 \<and> lat_axis t1 = sst_lat t \<and> lon_axis t1 = sst_lon t \<and>
           analysed_sst t = [field t1] \<and>
           sel_slices t1 (south b) (north b) (west b) (east b) = Inr t2 \<and> t' = minus_273 t2"
  using assms
  by (auto simp: restrict_temp_def squeeze_sst_def and_then_Inr split: list.splits if_splits)

lemma minus_273_axes [simp]:
  "lat_axis (minus_273 f) = lat_axis f" "lon_axis (minus_273 f) = lon_axis f"
  "field (minus_273 f) = map (map (\<lambda>v. fsub v 273)) (field f)"
  by (simp_all add: minus_273_def)

lemma length_py_slice: "length (py_slice xs i j) = min (j - i) (length xs - i)"
  by (simp add: py_slice_def)

lemma set_py_slice: "set (py_slice xs i j) \<subseteq> set xs"
  unfolding py_slice_def
  by (meson order_trans set_drop_subset set_take_subset)

lemma wf_field_sel_slices:
  assumes "wf_field f" "sel_slices f a b c d = Inr f'"
  shows "wf_field f'"
proof -
  from assms(2) obtain i0 i1 j0 j1 where
    f': "f' = \<lparr>lat_axis = py_slice (lat_axis f) i0 i1, lon_axis = py_slice (lon_axis f) j0 j1,
               field = map (\<lambda>row. py_slice row j0 j1) (py_slice (field f) i0 i1)\<rparr>"
    by (auto simp: sel_slices_def and_then_Inr split: pyfloat.splits)
  have "length row = length (lon_axis f)" if "row \<in> set (py_slice (field f) i0 i1)" for row
    using that assms(1) set_py_slice [of "field f" i0 i1] by (auto simp: wf_field_def)
  with assms(1) show ?thesis
    by (auto simp: f' wf_field_def length_py_slice)
qed

lemma demo_aux_facts:
  "flt (south demo_accepted_box) (north demo_accepted_box)"
  "north demo_accepted_box = Fin 35" "south demo_accepted_box = Fin 15"
  "sorted (lat_axis demo_sal_ascending)"
  "restrict_sal demo_sal_ascending demo_accepted_box =
     Inr \<lparr>lat_axis = [], lon_axis = [20, 30], field = []\<rparr>"
  "\<not> sorted (sst_lat demo_sst_descending)" "sorted (rev (sst_lat demo_sst_descending))"
  "restrict_temp demo_sst_descending demo_accepted_box =
     Inr \<lparr>lat_axis = [], lon_axis = [18, 26, 34], field = []\<rparr>"
  "\<not> sorted (lat_axis demo_sal_file)" "sorted (rev (lat_axis demo_sal_file))"
  "restrict_sal demo_sal_file demo_accepted_box =
     Inr \<lparr>lat_axis = [30, 20], lon_axis = [20, 30], field = [[Fin 35, Fin 34], [Fin 35, NaN]]\<rparr>"
  "sorted (sst_lat demo_sst_file)"
  "restrict_temp demo_sst_file demo_accepted_box =
     Inr \<lparr>lat_axis = [18, 26, 34], lon_axis = [18, 26, 34],
          field = [[Fin 17, Fin 18, Fin 12], [Fin 19, Fin 20, Fin 14], [Fin 16, Fin 26, Fin 25]]\<rparr>"
  by code_simp+

text \<open>
  C10. For a box with south < north, the salinity field is pre-restricted with the
  latitude slice from north to south and the temperature field with the slice from south
  to north. On an axis of the assumed orientation (descending for salinity, ascending for
  temperature) the slice keeps exactly the latitudes between south and north; on an axis
  of the opposite orientation the pre-restricted field is empty.
\<close>

theorem aux_latitude_slice_orientation:
  assumes sn: "flt (south b) (north b)"
  shows "restrict_sal f b = sel_slices f (north b) (south b) (west b) (east b) \<and>
         restrict_temp t b =
           and_then (squeeze_sst t) (\<lambda>t1.
           and_then (sel_slices t1 (south b) (north b) (west b) (east b)) (\<lambda>t2.
             Inr (minus_273 t2))) \<and>
         (sorted (lat_axis sal_asc) \<and> restrict_sal sal_asc b = Inr sal_empty \<longrightarrow>
            lat_axis sal_empty = [] \<and> field sal_empty = []) \<and>
         (\<not> sorted (sst_lat sst_desc) \<and> sorted (rev (sst_lat sst_desc)) \<and>
          restrict_temp sst_desc b = Inr sst_empty \<longrightarrow>
            lat_axis sst_empty = [] \<and> field sst_empty = []) \<and>
         (north b = Fin n \<and> south b = Fin s \<and>
          \<not> sorted (lat_axis sal_desc) \<and> sorted (rev (lat_axis sal_desc)) \<and>
          restrict_sal sal_desc b = Inr sal_box \<longrightarrow>
            lat_axis sal_box = filter (\<lambda>x. s \<le> x \<and> x \<le> n) (lat_axis sal_desc)) \<and>
         (north b = Fin n \<and> south b = Fin s \<and> sorted (sst_lat sst_asc) \<and>
          restrict_temp sst_asc b = Inr sst_box \<longrightarrow>
            lat_axis sst_box = filter (\<lambda>x. s \<le> x \<and> x \<le> n) (sst_lat sst_asc))"
proof -
  from sn obtain s0 n0 where b: "south b = Fin s0" "north b = Fin n0" and lt: "s0 < n0"
    using flt_Fin by blast
  have le: "length (filter (\<lambda>x. x \<le> s0) xs) \<le> length (filter (\<lambda>x. x < n0) xs)"
    "length (filter (\<lambda>x. n0 \<le> x) xs) \<le> length (filter (\<lambda>x. s0 < x) xs)" for xs :: "real list"
    using lt by (auto intro!: filter_length_mono)
  have c3: "lat_axis sal_empty = [] \<and> field sal_empty = []"
    if "sorted (lat_axis sal_asc)" "restrict_sal sal_asc b = Inr sal_empty"
    using that sel_slices_empty [of sal_asc n0 s0 "west b" "east b" sal_empty]
      slice_bounds_ascending [of "lat_axis sal_asc" n0 s0] le(1) [of "lat_axis sal_asc"]
    by (simp add: restrict_sal_def b)
  have c4: "lat_axis sst_empty = [] \<and> field sst_empty = []"
    if d: "\<not> sorted (sst_lat sst_desc)" "sorted (rev (sst_lat sst_desc))"
      and r: "restrict_temp sst_desc b = Inr sst_empty"
  proof -
    from restrict_temp_Inr [OF r] obtain t1 t2 where
      t1: "lat_axis t1 = sst_lat sst_desc"
      and t2: "sel_slices t1 (south b) (north b) (west b) (east b) = Inr t2"
      and e: "sst_empty = minus_273 t2"
      by blast
    from sel_slices_empty [of t1 s0 n0 "west b" "east b" t2] t2 d
      slice_bounds_descending [of "lat_axis t1" s0 n0] le(2) [of "lat_axis t1"]
    have "lat_axis t2 = [] \<and> field t2 = []"
      by (simp add: b t1)
    with e show ?thesis by simp
  qed
  have c5: "lat_axis sal_box = filter (\<lambda>x. s \<le> x \<and> x \<le> n) (lat_axis sal_desc)"
    if "north b = Fin n" "south b = Fin s" "\<not> sorted (lat_axis sal_desc)"
      "sorted (rev (lat_axis sal_desc))" "restrict_sal sal_desc b = Inr sal_box"
    using that sel_slices_lat [of sal_desc n s "west b" "east b" sal_box]
      slice_bounds_descending [of "lat_axis sal_desc" n s]
      slice_sorted_rev [of "lat_axis sal_desc" n s]
    by (auto simp: restrict_sal_def)
  have c6: "lat_axis sst_box = filter (\<lambda>x. s \<le> x \<and> x \<le> n) (sst_lat sst_asc)"
    if nb: "north b = Fin n" "south b = Fin s" and a: "sorted (sst_lat sst_asc)"
      and r: "restrict_temp sst_asc b = Inr sst_box"
  proof -
    from restrict_temp_Inr [OF r] obtain t1 t2 where
      t1: "lat_axis t1 = sst_lat sst_asc"
      and t2: "sel_slices t1 (south b) (north b) (west b) (east b) = Inr t2"
      and e: "sst_box = minus_273 t2"
      by blast
    from sel_slices_lat [of t1 s n "west b" "east b" t2] t2 nb a
      slice_bounds_ascending [of "lat_axis t1" s n] slice_sorted [of "lat_axis t1" s n]
    have "lat_axis t2 = filter (\<lambda>x. s \<le> x \<and> x \<le> n) (sst_lat sst_asc)"
      by (auto simp: t1)
    with e show ?thesis by simp
  qed
  have c1: "restrict_sal f b = sel_slices f (north b) (south b) (west b) (east b)"
    by (simp add: restrict_sal_def)
  have c2: "restrict_temp t b =
           and_then (squeeze_sst t) (\<lambda>t1.
           and_then (sel_slices t1 (south b) (north b) (west b) (east b)) (\<lambda>t2.
             Inr (minus_273 t2)))"
    by (simp add: restrict_temp_def)
  from c1 c2 c3 c4 c5 c6 show ?thesis
    by blast
qed

theorem aux_latitude_slice_orientation_witness:
  "flt (south demo_accepted_box) (north demo_accepted_box) \<and>
   restrict_sal demo_sal_ascending demo_accepted_box =
     Inr \<lparr>lat_axis = [], lon_axis = [20, 30], field = []\<rparr> \<and>
   restrict_temp demo_sst_descending demo_accepted_box =
     Inr \<lparr>lat_axis = [], lon_axis = [18, 26, 34], field = []\<rparr> \<and>
   filter (\<lambda>x. 15 \<le> x \<and> x \<le> 35) (lat_axis demo_sal_file) = [30, 20] \<and>
   filter (\<lambda>x. 15 \<le> x \<and> x \<le> 35) (sst_lat demo_sst_file) = [18, 26, 34]"
  using aux_latitude_slice_orientation
    [where b = demo_accepted_box and sal_asc = demo_sal_ascending
       and sal_empty = "\<lparr>lat_axis = [], lon_axis = [20, 30], field = []\<rparr>"
       and sst_desc = demo_sst_descending
       and sst_empty = "\<lparr>lat_axis = [], lon_axis = [18, 26, 34], field = []\<rparr>"
       and n = 35 and s = 15 and sal_desc = demo_sal_file
       and sal_box = "\<lparr>lat_axis = [30, 20], lon_axis = [20, 30],
                       field = [[Fin 35, Fin 34], [Fin 35, NaN]]\<rparr>"
       and sst_asc = demo_sst_file
       and sst_box = "\<lparr>lat_axis = [18, 26, 34], lon_axis = [18, 26, 34],
          field = [[Fin 17, Fin 18, Fin 12], [Fin 19, Fin 20, Fin 14], [Fin 16, Fin 26, Fin 25]]\<rparr>"]
    demo_aux_facts
  by simp

section \<open>Nearest-neighbour alignment\<close>

lemma nearest_Some:
  "xs \<noteq> [] \<Longrightarrow>
     \<exists>a. nearest p xs = Some a \<and> a < length xs \<and> (\<forall>k<length xs. \<bar>xs ! a - p\<bar> \<le> \<bar>xs ! k - p\<bar>)"
proof (induction xs)
  case Nil
  then show ?case by simp
next
  case (Cons x xs)
  show ?case
  proof (cases "xs = []")
    case True
    then show ?thesis by simp
  next
    case False
    from Cons.IH [OF False] obtain a where a: "nearest p xs = Some a" "a < length xs"
      and m: "\<forall>k<length xs. \<bar>xs ! a - p\<bar> \<le> \<bar>xs ! k - p\<bar>"
      by blast
    show ?thesis
    proof (cases "\<bar>x - p\<bar> < \<bar>xs ! a - p\<bar> \<or> (\<bar>x - p\<bar> = \<bar>xs ! a - p\<bar> \<and> x \<le> xs ! a)")
      case True
      then have n0: "nearest p (x # xs) = Some 0"
        using a by simp
      have "\<bar>(x # xs) ! 0 - p\<bar> \<le> \<bar>(x # xs) ! k - p\<bar>" if "k < length (x # xs)" for k
      proof (cases k)
        case 0
        then show ?thesis by simp
      next
        case (Suc k')
        with that m True show ?thesis by fastforce
      qed
      with n0 show ?thesis by simp
    next
      case False
      then have n1: "nearest p (x # xs) = Some (Suc a)"
        using a by simp
      have "\<bar>(x # xs) ! Suc a - p\<bar> \<le> \<bar>(x # xs) ! k - p\<bar>" if "k < length (x # xs)" for k
      proof (cases k)
        case 0
        with False show ?thesis by auto
      next
        case (Suc k')
        with that m show ?thesis by simp
      qed
      with n1 a show ?thesis by simp
    qed
  qed
qed

lemma nearest_less: "nearest p xs = Some a \<Longrightarrow> a < length xs"
  using nearest_Some [of xs p] by (cases "xs = []") auto

lemma in_extent_nonempty: "in_extent p xs \<Longrightarrow> xs \<noteq> []"
  by (auto simp: in_extent_def)

lemma interp_nearest_nth:
  assumes "i < length lat_grid" "i < length lon_grid" "j < length (lat_grid ! i)"
    "j < length (lon_grid ! i)"
  shows "interp_nearest f lon_grid lat_grid ! i ! j =
           lookup_nearest f (lat_grid ! i ! j) (lon_grid ! i ! j)"
  using assms by (simp add: interp_nearest_def)

lemma lookup_nearest_in_extent:
  assumes "in_extent y (lat_axis f)" "in_extent x (lon_axis f)"
  shows "\<exists>a b. a < length (lat_axis f) \<and> b < length (lon_axis f) \<and>
           nearest y (lat_axis f) = Some a \<and> nearest x (lon_axis f) = Some b \<and>
           (\<forall>k<length (lat_axis f). \<bar>lat_axis f ! a - y\<bar> \<le> \<bar>lat_axis f ! k - y\<bar>) \<and>
           (\<forall>k<length (lon_axis f). \<bar>lon_axis f ! b - x\<bar> \<le> \<bar>lon_axis f ! k - x\<bar>) \<and>
           lookup_nearest f (Fin y) (Fin x) = field f ! a ! b"
proof -
  from nearest_Some [OF in_extent_nonempty [OF assms(1)], of y] obtain a where
    a: "nearest y (lat_axis f) = Some a" "a < length (lat_axis f)"
      "\<forall>k<length (lat_axis f). \<bar>lat_axis f ! a - y\<bar> \<le> \<bar>lat_axis f ! k - y\<bar>"
    by blast
  from nearest_Some [OF in_extent_nonempty [OF assms(2)], of x] obtain b where
    b: "nearest x (lon_axis f) = Some b" "b < length (lon_axis f)"
      "\<forall>k<length (lon_axis f). \<bar>lon_axis f ! b - x\<bar> \<le> \<bar>lon_axis f ! k - x\<bar>"
    by blast
  have "lookup_nearest f (Fin y) (Fin x) = field f ! a ! b"
    using assms a(1) b(1) by (simp add: lookup_nearest_def)
  with a b show ?thesis by blast
qed

lemma lookup_nearest_outside:
  assumes "\<not> (\<exists>y x. la = Fin y \<and> lo = Fin x \<and> in_extent y (lat_axis f) \<and> in_extent x (lon_axis f))"
  shows "lookup_nearest f la lo = NaN"
  using assms by (cases la; cases lo) (auto simp: lookup_nearest_def)

lemma lookup_nearest_minus_273:
  assumes "wf_field f"
  shows "lookup_nearest (minus_273 f) la lo = fsub (lookup_nearest f la lo) 273"
proof (cases "\<exists>y x. la = Fin y \<and> lo = Fin x \<and> in_extent y (lat_axis f) \<and> in_extent x (lon_axis f)")
  case True
  then obtain y x where yx: "la = Fin y" "lo = Fin x" "in_extent y (lat_axis f)"
    "in_extent x (lon_axis f)" by blast
  from lookup_nearest_in_extent [OF yx(3,4)] obtain a b where
    ab: "a < length (lat_axis f)" "b < length (lon_axis f)"
      "nearest y (lat_axis f) = Some a" "nearest x (lon_axis f) = Some b"
      "lookup_nearest f (Fin y) (Fin x) = field f ! a ! b"
    by blast
  from assms ab(1,2) have "a < length (field f)" "b < length (field f ! a)"
    by (simp_all add: wf_field_def)
  then have "field (minus_273 f) ! a ! b = fsub (field f ! a ! b) 273"
    by simp
  with yx ab show ?thesis
    by (simp add: lookup_nearest_def)
next
  case False
  then have "lookup_nearest f la lo = NaN" "lookup_nearest (minus_273 f) la lo = NaN"
    by (simp_all add: lookup_nearest_outside)
  then show ?thesis by simp
qed

lemma interp_nearest_minus_273:
  assumes "wf_field f"
  shows "interp_nearest (minus_273 f) lon_grid lat_grid =
           map (map (\<lambda>v. fsub v 273)) (interp_nearest f lon_grid lat_grid)"
  by (simp add: interp_nearest_def lookup_nearest_minus_273 [OF assms] split_def comp_def)

lemma demo_alignment_facts:
  "restrict_sal demo_sal_file demo_accepted_box = Inr demo_sal_box"
  "latitude demo_box ! 0 ! 1 = Fin 20" "longitude demo_box ! 0 ! 1 = Fin 30"
  "in_extent 20 (lat_axis demo_sal_box)" "in_extent 30 (lon_axis demo_sal_box)"
  "interp_nearest demo_sal_box (longitude demo_box) (latitude demo_box) ! 0 ! 1 =
     field demo_sal_box ! 1 ! 1"
  "field demo_sal_box ! 1 ! 1 = NaN"
  "interp_nearest demo_sal_box (longitude demo_box) (latitude demo_box) ! 0 ! 0 = Fin 35"
  "\<not> in_extent 16 (lat_axis demo_sal_box)"
  "interp_nearest demo_sal_box [[Fin 20]] [[Fin 16]] ! 0 ! 0 = NaN"
  "align_sal demo_sal_file demo_accepted_box (longitude demo_box) (latitude demo_box) =
     Inr demo_sal"
  "align_temp demo_sst_file demo_accepted_box (longitude demo_box) (latitude demo_box) =
     Inr demo_temp"
  by code_simp+

lemma demo_temperature_facts:
  "analysed_sst demo_sst_file =
     [[[Fin 280, Fin 281, Fin 282, Fin 283], [Fin 284, Fin 290, Fin 291, Fin 285],
       [Fin 286, Fin 292, Fin 293, Fin 287], [Fin 288, Fin 289, Fin 299, Fin 298]]]"
  "length [[Fin 280, Fin 281, Fin 282, Fin 283], [Fin 284, Fin 290, Fin 291, Fin 285],
       [Fin 286, Fin 292, Fin 293, Fin 287], [Fin 288, Fin 289, Fin 299, Fin 298]]
     = length (sst_lat demo_sst_file)"
  "\<forall>row\<in>set [[Fin 280, Fin 281, Fin 282, Fin 283], [Fin 284, Fin 290, Fin 291, Fin 285],
       [Fin 286, Fin 292, Fin 293, Fin 287], [Fin 288, Fin 289, Fin 299, Fin 298]].
     length row = length (sst_lon demo_sst_file)"
  "align_temp demo_sst_file demo_accepted_box (longitude demo_box) (latitude demo_box) =
     Inr demo_temp"
  by code_simp+

lemma demo_temperature_kelvin:
  "interp_nearest \<lparr>lat_axis = [18, 26, 34], lon_axis = [18, 26, 34],
      field = [[Fin 290, Fin 291, Fin 285], [Fin 292, Fin 293, Fin 287],
               [Fin 289, Fin 299, Fin 298]]\<rparr> (longitude demo_box) (latitude demo_box) =
     [[Fin 290, Fin 291], [Fin 292, Fin 293]]"
  "demo_temp = [[Fin 17, Fin 18], [Fin 19, Fin 20]]"
  "fsub (Fin 290) 273 = Fin 17"
  by code_simp+

text \<open>
  C8 as stated does not hold for every swath pixel. The pixel at latitude 16, longitude
  20 lies inside the operator's box, and the salinity grid point closest to it (latitude
  20, longitude 20) holds a value; but latitude 16 is beyond the last latitude of the
  pre-restricted field, and the aligned value is missing.
\<close>

theorem pixel_beyond_restricted_axis_is_missing:
  "align_sal demo_sal_file demo_accepted_box [[Fin 20]] [[Fin 16]] = Inr [[NaN]] \<and>
   flt (south demo_accepted_box) (Fin 16) \<and> flt (Fin 16) (north demo_accepted_box) \<and>
   flt (west demo_accepted_box) (Fin 20) \<and> flt (Fin 20) (east demo_accepted_box) \<and>
   lat_axis demo_sal_file = [40, 30, 20, 10] \<and> lon_axis demo_sal_file = [10, 20, 30, 40] \<and>
   nearest 16 (lat_axis demo_sal_file) = Some 2 \<and>
   nearest 20 (lon_axis demo_sal_file) = Some 1 \<and>
   field demo_sal_file ! 2 ! 1 = Fin 35"
  by code_simp

text \<open>
  C8, amended. The aligned salinity and temperature are the nearest-neighbour alignment of
  the pre-restricted fields. For a pixel whose latitude and longitude are present and
  within the extents of the pre-restricted axes, the aligned value is the field's value at
  a grid point that is closest to the pixel on each axis independently (so it is missing
  when that sample is missing, and nothing is interpolated). For every other pixel the
  aligned value is missing.
\<close>

theorem nearest_neighbour_within_extent:
  assumes "i < length lat_grid" "i < length lon_grid" "j < length (lat_grid ! i)"
    "j < length (lon_grid ! i)"
  shows "(lat_grid ! i ! j = Fin y \<and> lon_grid ! i ! j = Fin x \<and>
          in_extent y (lat_axis f) \<and> in_extent x (lon_axis f) \<longrightarrow>
            (\<exists>a b. a < length (lat_axis f) \<and> b < length (lon_axis f) \<and>
               (\<forall>k<length (lat_axis f). \<bar>lat_axis f ! a - y\<bar> \<le> \<bar>lat_axis f ! k - y\<bar>) \<and>
               (\<forall>k<length (lon_axis f). \<bar>lon_axis f ! b - x\<bar> \<le> \<bar>lon_axis f ! k - x\<bar>) \<and>
               interp_nearest f lon_grid lat_grid ! i ! j = field f ! a ! b)) \<and>
         (\<not> (\<exists>y x. lat_grid ! i ! j = Fin y \<and> lon_grid ! i ! j = Fin x \<and>
                 in_extent y (lat_axis f) \<and> in_extent x (lon_axis f)) \<longrightarrow>
            interp_nearest f lon_grid lat_grid ! i ! j = NaN) \<and>
         (align_sal sal_file b lon_grid lat_grid = Inr sal_aligned \<longrightarrow>
            (\<exists>sal_box. restrict_sal sal_file b = Inr sal_box \<and>
               sal_aligned = interp_nearest sal_box lon_grid lat_grid)) \<and>
         (align_temp sst b lon_grid lat_grid = Inr temp_aligned \<longrightarrow>
            (\<exists>sst_box. restrict_temp sst b = Inr sst_box \<and>
               temp_aligned = interp_nearest sst_box lon_grid lat_grid))"
proof -
  note nth = interp_nearest_nth [OF assms, of f]
  have c1: "\<exists>a b. a < length (lat_axis f) \<and> b < length (lon_axis f) \<and>
               (\<forall>k<length (lat_axis f). \<bar>lat_axis f ! a - y\<bar> \<le> \<bar>lat_axis f ! k - y\<bar>) \<and>
               (\<forall>k<length (lon_axis f). \<bar>lon_axis f ! b - x\<bar> \<le> \<bar>lon_axis f ! k - x\<bar>) \<and>
               interp_nearest f lon_grid lat_grid ! i ! j = field f ! a ! b"
    if "lat_grid ! i ! j = Fin y" "lon_grid ! i ! j = Fin x"
      "in_extent y (lat_axis f)" "in_extent x (lon_axis f)"
    using lookup_nearest_in_extent [OF that(3,4)] that(1,2) nth by auto
  have c2: "interp_nearest f lon_grid lat_grid ! i ! j = NaN"
    if "\<not> (\<exists>y x. lat_grid ! i ! j = Fin y \<and> lon_grid ! i ! j = Fin x \<and>
                 in_extent y (lat_axis f) \<and> in_extent x (lon_axis f))"
    using lookup_nearest_outside [OF that] nth by simp
  have c3: "\<exists>sal_box. restrict_sal sal_file b = Inr sal_box \<and>
               sal_aligned = interp_nearest sal_box lon_grid lat_grid"
    if "align_sal sal_file b lon_grid lat_grid = Inr sal_aligned"
    using that by (auto simp: align_sal_def and_then_Inr)
  have c4: "\<exists>sst_box. restrict_temp sst b = Inr sst_box \<and>
               temp_aligned = interp_nearest sst_box lon_grid lat_grid"
    if "align_temp sst b lon_grid lat_grid = Inr temp_aligned"
    using that by (auto simp: align_temp_def and_then_Inr)
  from c1 c2 c3 c4 show ?thesis by blast
qed

theorem nearest_neighbour_within_extent_witness:
  "in_extent 20 (lat_axis demo_sal_box) \<and> in_extent 30 (lon_axis demo_sal_box) \<and>
   interp_nearest demo_sal_box (longitude demo_box) (latitude demo_box) ! 0 ! 1 =
     field demo_sal_box ! 1 ! 1 \<and>
   field demo_sal_box ! 1 ! 1 = NaN \<and>
   interp_nearest demo_sal_box (longitude demo_box) (latitude demo_box) ! 0 ! 0 = Fin 35 \<and>
   \<not> in_extent 16 (lat_axis demo_sal_box) \<and>
   interp_nearest demo_sal_box [[Fin 20]] [[Fin 16]] ! 0 ! 0 = NaN \<and>
   align_sal demo_sal_file demo_accepted_box (longitude demo_box) (latitude demo_box) =
     Inr demo_sal \<and>
   align_temp demo_sst_file demo_accepted_box (longitude demo_box) (latitude demo_box) =
     Inr demo_temp"
  using nearest_neighbour_within_extent
      [where lat_grid = "latitude demo_box" and lon_grid = "longitude demo_box" and i = 0
         and j = 1 and f = demo_sal_box and y = 20 and x = 30 and sal_file = demo_sal_file
         and b = demo_accepted_box and sal_aligned = demo_sal and sst = demo_sst_file
         and temp_aligned = demo_temp]
    nearest_neighbour_within_extent
      [where lat_grid = "[[Fin 16]]" and lon_grid = "[[Fin 20]]" and i = 0 and j = 0
         and f = demo_sal_box]
    demo_alignment_facts
  by simp

text \<open>
  C7. For a temperature file with a single time step, the time axis is dropped (the
  squeezed field is the field of that step on the file's latitude and longitude axes),
  273 is subtracted from every source value (not 273.15) after the pre-restriction and
  before the alignment, and every aligned value is the aligned Kelvin value minus 273.
\<close>

theorem temperature_kelvin_minus_273:
  assumes one: "analysed_sst t = [kelvin]"
    and wf: "length kelvin = length (sst_lat t)" "\<forall>row\<in>set kelvin. length row = length (sst_lon t)"
    and run: "align_temp t b lon_grid lat_grid = Inr grid"
  shows "fsub (Fin k) 273 = Fin (k - 273) \<and>
         (\<exists>t2. squeeze_sst t = Inr \<lparr>lat_axis = sst_lat t, lon_axis = sst_lon t, field = kelvin\<rparr> \<and>
            sel_slices \<lparr>lat_axis = sst_lat t, lon_axis = sst_lon t, field = kelvin\<rparr>
              (south b) (north b) (west b) (east b) = Inr t2 \<and>
            restrict_temp t b = Inr (minus_273 t2) \<and>
            field (minus_273 t2) = map (map (\<lambda>v. fsub v 273)) (field t2) \<and>
            grid = interp_nearest (minus_273 t2) lon_grid lat_grid \<and>
            grid = map (map (\<lambda>v. fsub v 273)) (interp_nearest t2 lon_grid lat_grid))"
proof -
  let ?t1 = "\<lparr>lat_axis = sst_lat t, lon_axis = sst_lon t, field = kelvin\<rparr>"
  from run obtain c where c: "restrict_temp t b = Inr c"
    and g: "grid = interp_nearest c lon_grid lat_grid"
    by (auto simp: align_temp_def and_then_Inr)
  from restrict_temp_Inr [OF c] one obtain t1 t2 where
    sq: "squeeze_sst t = Inr t1" and t1: "t1 = ?t1"
    and sel: "sel_slices t1 (south b) (north b) (west b) (east b) = Inr t2"
    and c2: "c = minus_273 t2"
    by (auto simp: squeeze_sst_def split: if_splits)
  have "wf_field ?t1"
    using wf by (simp add: wf_field_def)
  with sel t1 have "wf_field t2"
    using wf_field_sel_slices by blast
  from interp_nearest_minus_273 [OF this] g c2
  have "grid = map (map (\<lambda>v. fsub v 273)) (interp_nearest t2 lon_grid lat_grid)"
    by simp
  with sq t1 sel c c2 g show ?thesis
    by auto
qed

theorem temperature_kelvin_minus_273_witness:
  "align_temp demo_sst_file demo_accepted_box (longitude demo_box) (latitude demo_box) =
     Inr [[Fin 17, Fin 18], [Fin 19, Fin 20]] \<and>
   fsub (Fin 290) 273 = Fin 17 \<and>
   length (analysed_sst demo_sst_file) = 1"
  using temperature_kelvin_minus_273 [OF demo_temperature_facts, of 290]
    demo_temperature_facts demo_temperature_kelvin
  by simp

section \<open>The whole pipeline on the synthetic swath\<close>

text \<open>
  The end-to-end scenario: the operator's box selects the two-by-two block; the cell with
  missing salinity and the cell with missing reflectance stay missing, the other two
  receive the first result group.
\<close>

lemma estimate_demo:
  "estimate_inv_pigments demo_externals demo_l2 demo_sal_file demo_sst_file
     [''north'', ''35'', ''15'', ''35'', ''15''] =
   Inr (rrs_box demo_final, [],
        [Coverage (Fin 40) (Fin 10) (Fin 40) (Fin 10), Select_a_boundary_box,
         Prompt ''north'' (Fin 40) (Fin 10), Must_enter_a_float,
         Prompt ''north'' (Fin 40) (Fin 10), Prompt ''south'' (Fin 35) (Fin 10),
         Prompt ''east'' (Fin 40) (Fin 10), Prompt ''west'' (Fin 35) (Fin 10),
         Progress 1 4, Progress 2 4, Progress 3 4, Progress 4 4])"
  by code_simp

end
